theory Spec2Isabelle
  imports Main "HOL-Library.Word"
begin

section \<open>link-base: sessions and referral codes\<close>

text \<open>
  A shallow embedding of the service layer of link-base (\<^verbatim>\<open>UserService\<close> and
  \<^verbatim>\<open>ReferralService\<close>) together with the three Postgres repositories and the Redis
  referral cache it calls.

  The Go code talks to a relational store, to a cache, to a password hasher, to a token
  manager and to the clock. Here the store is a record of four tables (lists of rows, in
  insertion order), the cache is a map from keys to values with an optional expiry, and
  everything a call gets from outside (the time, the hash, the generated tokens, the new
  user id, a driver failure of any single store or cache call) is a field of an
  environment record \<open>env\<close> that is passed to every operation. One operation reads the
  clock once: the time that Go, Postgres and Redis see during a call is the one instant
  \<open>now env\<close>. \<^verbatim>\<open>FindReferralByUserID\<close> and \<^verbatim>\<open>SendEmail\<close> are left out, and so
  are the HTTP handlers, which turn every error \<open>e\<close> of the service into a response
  that carries \<open>Error e\<close>.
\<close>

subsection \<open>Identifiers, time, errors\<close>

text \<open>\<^verbatim>\<open>uuid.UUID\<close> is \<^verbatim>\<open>[16]byte\<close>: 128 bits. \<^verbatim>\<open>time.Time\<close> and
  \<^verbatim>\<open>time.Duration\<close> are counted in nanoseconds.\<close>

type_synonym uuid = "128 word"
type_synonym time = int
type_synonym duration = int

definition uuid_Nil :: uuid where
  "uuid_Nil = 0"

text \<open>
  Go error values. \<open>Errorf m\<close> is \<^verbatim>\<open>fmt.Errorf(m)\<close> with no wrapped error,
  \<open>Wrapf m e\<close> is \<^verbatim>\<open>fmt.Errorf(m + ": %w", e)\<close>. \<open>External m\<close> is an error made
  outside the files at hand (the SQL driver, the Redis client, the hasher, the token
  manager, the uuid parser), with its message. The three sentinels are
  \<^verbatim>\<open>sql.ErrNoRows\<close>, \<^verbatim>\<open>sql.ErrTxDone\<close> and \<^verbatim>\<open>redis.Nil\<close>.
\<close>

datatype error =
    External string
  | ErrNoRows
  | ErrTxDone
  | RedisNil
  | Errorf string
  | Wrapf string error

text \<open>\<^verbatim>\<open>err.Error()\<close>: the text the HTTP handlers send back.\<close>

fun Error :: "error \<Rightarrow> string" where
  "Error (External m) = m"
| "Error ErrNoRows = ''sql: no rows in result set''"
| "Error ErrTxDone = ''sql: transaction has already been committed or rolled back''"
| "Error RedisNil = ''redis: nil''"
| "Error (Errorf m) = m"
| "Error (Wrapf m e) = m @ '': '' @ Error e"

text \<open>What a Go call ends with: its results, an error, or a panic.\<close>

datatype 'a outcome = Ok 'a | Fail error | Panic string

subsection \<open>\<^verbatim>\<open>uuid.String\<close> and \<^verbatim>\<open>uuid.Parse\<close>\<close>

text \<open>
  The canonical text form of an id is 32 lower-case hexadecimal digits in groups of
  8-4-4-4-12. \<^verbatim>\<open>uuid.Parse\<close> reads that form, the same after a \<^verbatim>\<open>urn:uuid:\<close>
  prefix, the same between any two characters (the first is dropped and the last is never
  looked at), and the 32 digits alone, in either case of the letters. Its error for a
  bad prefix quotes the prefix with the \<^verbatim>\<open>%q\<close> verb; that quoting is the parameter
  \<open>quote\<close>. \<open>Itoa\<close> is \<^verbatim>\<open>strconv.Itoa\<close> on a length.
\<close>

function Itoa :: "nat \<Rightarrow> string" where
  "Itoa n =
     (if n < 10 then [''0123456789'' ! n]
      else Itoa (n div 10) @ [''0123456789'' ! (n mod 10)])"
  by pat_completeness auto
termination
  by (relation "measure id") auto

declare Itoa.simps [simp del]

definition hex_digit :: "nat \<Rightarrow> char" where
  "hex_digit d = ''0123456789abcdef'' ! d"

fun hex_of :: "nat \<Rightarrow> nat \<Rightarrow> string" where
  "hex_of 0 n = []"
| "hex_of (Suc k) n = hex_of k (n div 16) @ [hex_digit (n mod 16)]"

definition hex_val :: "char \<Rightarrow> nat option" where
  "hex_val c =
     (let n = (of_char c :: nat) in
      if 48 \<le> n \<and> n \<le> 57 then Some (n - 48)
      else if 97 \<le> n \<and> n \<le> 102 then Some (n - 87)
      else if 65 \<le> n \<and> n \<le> 70 then Some (n - 55)
      else None)"

fun unhex :: "string \<Rightarrow> nat \<Rightarrow> nat option" where
  "unhex [] acc = Some acc"
| "unhex (c # cs) acc =
     (case hex_val c of None \<Rightarrow> None | Some d \<Rightarrow> unhex cs (acc * 16 + d))"

definition to_lower :: "char \<Rightarrow> char" where
  "to_lower c =
     (let n = (of_char c :: nat) in
      if 65 \<le> n \<and> n \<le> 90 then char_of (n + 32) else c)"

definition uuid_String :: "uuid \<Rightarrow> string" where
  "uuid_String u =
     (let h = hex_of 32 (unat u) in
      take 8 h @ ''-'' @ take 4 (drop 8 h) @ ''-'' @ take 4 (drop 12 h) @ ''-''
        @ take 4 (drop 16 h) @ ''-'' @ drop 20 h)"

definition parse_hyphenated :: "string \<Rightarrow> string + uuid" where
  "parse_hyphenated s =
     (if s ! 8 \<noteq> CHR ''-'' \<or> s ! 13 \<noteq> CHR ''-'' \<or> s ! 18 \<noteq> CHR ''-'' \<or> s ! 23 \<noteq> CHR ''-''
      then Inl ''invalid UUID format''
      else case unhex (take 8 s @ take 4 (drop 9 s) @ take 4 (drop 14 s)
                         @ take 4 (drop 19 s) @ take 12 (drop 24 s)) 0 of
             None \<Rightarrow> Inl ''invalid UUID format''
           | Some n \<Rightarrow> Inr (word_of_nat n))"

definition uuid_Parse :: "(string \<Rightarrow> string) \<Rightarrow> string \<Rightarrow> string + uuid" where
  "uuid_Parse quote s =
     (if length s = 36 then parse_hyphenated s
      else if length s = 45 then
        (if map to_lower (take 9 s) = ''urn:uuid:'' then parse_hyphenated (drop 9 s)
         else Inl (''invalid urn prefix: '' @ quote (take 9 s)))
      else if length s = 38 then parse_hyphenated (drop 1 s)
      else if length s = 32 then
        (case unhex s 0 of
           None \<Rightarrow> Inl ''invalid UUID format''
         | Some n \<Rightarrow> Inr (word_of_nat n))
      else Inl (''invalid UUID length: '' @ Itoa (length s)))"

subsection \<open>Domain structs\<close>

text \<open>\<^verbatim>\<open>domain.User\<close>, \<^verbatim>\<open>domain.RefreshToken\<close>, \<^verbatim>\<open>domain.Referral\<close>,
  \<^verbatim>\<open>domain.ReferralUser\<close>. Field names that two structs share carry a prefix.\<close>

record user =
  UserId :: uuid
  Email :: string
  PasswordHash :: string

record refresh_token =
  UserID :: uuid
  RefreshToken :: string
  ExpiresAt :: time

record referral =
  ReferralCode :: string
  ref_UserId :: uuid
  TTL :: duration

record referral_user =
  ru_UserID :: uuid
  Referral :: uuid

subsection \<open>The relational store\<close>

text \<open>
  The schema of the migration: \<^verbatim>\<open>users\<close> (primary key \<^verbatim>\<open>user_id\<close>, \<^verbatim>\<open>email\<close>
  unique), \<^verbatim>\<open>referral\<close> (primary key \<^verbatim>\<open>user_id\<close>), \<^verbatim>\<open>refresh_token\<close> (primary key
  \<^verbatim>\<open>(user_id, refresh_token)\<close>), \<^verbatim>\<open>referral_code\<close> (primary key
  \<^verbatim>\<open>(user_id, code)\<close>); every \<^verbatim>\<open>user_id\<close> and \<^verbatim>\<open>referred_by_user_id\<close> references
  \<^verbatim>\<open>users\<close>. Column widths are not modelled.
\<close>

record code_row =
  rc_user_id :: uuid
  rc_code :: string
  rc_expires_at :: time

record database =
  users :: "user list"
  referral_tbl :: "referral_user list"
  refresh_token_tbl :: "refresh_token list"
  referral_code_tbl :: "code_row list"

definition pq_unique_violation :: error where
  "pq_unique_violation = External ''pq: duplicate key value violates unique constraint''"

definition pq_foreign_key_violation :: error where
  "pq_foreign_key_violation = External ''pq: insert or update violates foreign key constraint''"

definition user_exists :: "database \<Rightarrow> uuid \<Rightarrow> bool" where
  "user_exists db uid = list_ex (\<lambda>u. UserId u = uid) (users db)"

text \<open>\<^verbatim>\<open>INSERT INTO users ... ON CONFLICT (email) DO NOTHING\<close>\<close>

definition insert_user :: "database \<Rightarrow> user \<Rightarrow> error + database" where
  "insert_user db u =
     (if list_ex (\<lambda>v. Email v = Email u) (users db) then Inr db
      else if user_exists db (UserId u) then Inl pq_unique_violation
      else Inr (db\<lparr>users := users db @ [u]\<rparr>))"

text \<open>\<^verbatim>\<open>INSERT INTO referral ... ON CONFLICT (user_id) DO NOTHING\<close>\<close>

definition insert_referral :: "database \<Rightarrow> referral_user \<Rightarrow> error + database" where
  "insert_referral db r =
     (if list_ex (\<lambda>v. ru_UserID v = ru_UserID r) (referral_tbl db) then Inr db
      else if \<not> user_exists db (ru_UserID r) \<or> \<not> user_exists db (Referral r)
        then Inl pq_foreign_key_violation
      else Inr (db\<lparr>referral_tbl := referral_tbl db @ [r]\<rparr>))"

text \<open>\<^verbatim>\<open>INSERT INTO refresh_token ... ON CONFLICT (user_id, refresh_token) DO UPDATE
  SET refresh_token = $2, expires_at = $3\<close>\<close>

definition same_session :: "refresh_token \<Rightarrow> refresh_token \<Rightarrow> bool" where
  "same_session s r \<longleftrightarrow> UserID r = UserID s \<and> RefreshToken r = RefreshToken s"

definition upsert_refresh_token :: "database \<Rightarrow> refresh_token \<Rightarrow> error + database" where
  "upsert_refresh_token db s =
     (if list_ex (same_session s) (refresh_token_tbl db) then
        Inr (db\<lparr>refresh_token_tbl :=
               map (\<lambda>r. if same_session s r
                         then r\<lparr>RefreshToken := RefreshToken s, ExpiresAt := ExpiresAt s\<rparr>
                         else r) (refresh_token_tbl db)\<rparr>)
      else if \<not> user_exists db (UserID s) then Inl pq_foreign_key_violation
      else Inr (db\<lparr>refresh_token_tbl := refresh_token_tbl db @ [s]\<rparr>))"

text \<open>\<^verbatim>\<open>INSERT INTO referral_code ... ON CONFLICT (user_id, code) DO UPDATE
  SET code = $2, expires_at = $3\<close>\<close>

definition same_code :: "code_row \<Rightarrow> code_row \<Rightarrow> bool" where
  "same_code c r \<longleftrightarrow> rc_user_id r = rc_user_id c \<and> rc_code r = rc_code c"

definition upsert_referral_code :: "database \<Rightarrow> code_row \<Rightarrow> error + database" where
  "upsert_referral_code db c =
     (if list_ex (same_code c) (referral_code_tbl db) then
        Inr (db\<lparr>referral_code_tbl :=
               map (\<lambda>r. if same_code c r
                         then r\<lparr>rc_code := rc_code c, rc_expires_at := rc_expires_at c\<rparr>
                         else r) (referral_code_tbl db)\<rparr>)
      else if \<not> user_exists db (rc_user_id c) then Inl pq_foreign_key_violation
      else Inr (db\<lparr>referral_code_tbl := referral_code_tbl db @ [c]\<rparr>))"

subsection \<open>The world and what a call gets from outside\<close>

text \<open>
  A cache entry is a value with an optional expiry instant; an entry whose expiry has
  been reached is gone. The trace lists the calls made to the store, to the cache and to
  the logger, oldest first.
\<close>

datatype call =
    CallFindByEmail string
  | CallBeginTxx
  | CallUserCreate user
  | CallCreateReferral referral_user
  | CallCommit
  | CallRollback
  | CallFindByRefreshToken string
  | CallRefreshTokenCreate refresh_token
  | CallFindCodeByUserID uuid
  | CallCreateReferralCode referral
  | CallRedisGet string
  | CallRedisSet string string duration
  | LogInfo string

record world =
  pg :: database
  redis :: "string \<Rightarrow> (string \<times> time option) option"
  trace :: "call list"

definition record_call :: "call \<Rightarrow> world \<Rightarrow> world" where
  "record_call c w = w\<lparr>trace := trace w @ [c]\<rparr>"

text \<open>
  The environment of one service call. \<open>Hash\<close>, \<open>NewJWT\<close> and \<open>NewRefreshToken\<close> are
  \<^verbatim>\<open>hasher.Hash\<close>, \<^verbatim>\<open>tokenManager.NewJWT\<close> and \<^verbatim>\<open>tokenManager.NewRefreshToken\<close>
  (packages \<^verbatim>\<open>pkg/hash\<close> and \<^verbatim>\<open>pkg/auth\<close>), \<open>Inl m\<close> being a failure with message
  \<open>m\<close>; \<open>uuid_New\<close> is \<^verbatim>\<open>uuid.New()\<close>, which panics (\<open>None\<close>) when the random source
  fails; \<open>Quote\<close> is the \<^verbatim>\<open>%q\<close> verb of \<^verbatim>\<open>fmt\<close>; the two TTLs are
  \<^verbatim>\<open>config.JWTConfig\<close>. A field \<open>fail_X = Some m\<close> makes the driver fail call \<open>X\<close>
  with message \<open>m\<close>; for \<^verbatim>\<open>FindCodeByUserID\<close> it is \<open>Some (m, k)\<close>, the failure coming
  after \<open>k\<close> rows have been read.
\<close>

record env =
  now :: time
  Hash :: "string \<Rightarrow> string + string"
  NewJWT :: "string \<Rightarrow> duration \<Rightarrow> string + string"
  NewRefreshToken :: "string + string"
  uuid_New :: "uuid option"
  Quote :: "string \<Rightarrow> string"
  AccessTokenTTL :: duration
  RefreshTokenTTL :: duration
  fail_FindByEmail :: "string option"
  fail_BeginTxx :: "string option"
  fail_UserCreate :: "string option"
  fail_CreateReferral :: "string option"
  fail_Commit :: "string option"
  fail_FindByRefreshToken :: "string option"
  fail_RefreshTokenCreate :: "string option"
  fail_FindCodeByUserID :: "(string \<times> nat) option"
  fail_CreateReferralCode :: "string option"
  fail_RedisGet :: "string option"
  fail_RedisSet :: "string option"

subsection \<open>Transactions\<close>

text \<open>
  \<^verbatim>\<open>*sqlx.Tx\<close>: the tables as the transaction sees them, and whether it has been
  committed or rolled back. Calls are handled one at a time, so the tables a commit
  installs are the ones at \<^verbatim>\<open>BeginTxx\<close> with the transaction's writes.
\<close>

record sql_tx =
  tx_db :: database
  tx_done :: bool

definition BeginTxx :: "env \<Rightarrow> world \<Rightarrow> (error + sql_tx) \<times> world" where
  "BeginTxx env w =
     (let w' = record_call CallBeginTxx w in
      case fail_BeginTxx env of
        Some m \<Rightarrow> (Inl (External m), w')
      | None \<Rightarrow> (Inr \<lparr>tx_db = pg w, tx_done = False\<rparr>, w'))"

definition Tx_Commit :: "env \<Rightarrow> sql_tx \<Rightarrow> world \<Rightarrow> error option \<times> sql_tx \<times> world" where
  "Tx_Commit env tx w =
     (let w' = record_call CallCommit w in
      if tx_done tx then (Some ErrTxDone, tx, w')
      else case fail_Commit env of
        Some m \<Rightarrow> (Some (External m), tx\<lparr>tx_done := True\<rparr>, w')
      | None \<Rightarrow> (None, tx\<lparr>tx_done := True\<rparr>, w'\<lparr>pg := tx_db tx\<rparr>))"

definition Tx_Rollback :: "sql_tx \<Rightarrow> world \<Rightarrow> error option \<times> sql_tx \<times> world" where
  "Tx_Rollback tx w =
     (let w' = record_call CallRollback w in
      if tx_done tx then (Some ErrTxDone, tx, w')
      else (None, tx\<lparr>tx_done := True\<rparr>, w'))"

text \<open>A statement run on the transaction: \<^verbatim>\<open>tx.ExecContext\<close>.\<close>

definition Tx_Exec ::
  "string option \<Rightarrow> (database \<Rightarrow> error + database) \<Rightarrow> sql_tx \<Rightarrow> error option \<times> sql_tx" where
  "Tx_Exec fault stmt tx =
     (if tx_done tx then (Some ErrTxDone, tx)
      else case fault of
        Some m \<Rightarrow> (Some (External m), tx)
      | None \<Rightarrow>
         (case stmt (tx_db tx) of
            Inl e \<Rightarrow> (Some e, tx)
          | Inr db' \<Rightarrow> (None, tx\<lparr>tx_db := db'\<rparr>)))"

text \<open>A statement run outside a transaction: \<^verbatim>\<open>db.ExecContext\<close>.\<close>

definition Db_Exec ::
  "string option \<Rightarrow> (database \<Rightarrow> error + database) \<Rightarrow> world \<Rightarrow> error option \<times> world" where
  "Db_Exec fault stmt w =
     (case fault of
        Some m \<Rightarrow> (Some (External m), w)
      | None \<Rightarrow>
         (case stmt (pg w) of
            Inl e \<Rightarrow> (Some e, w)
          | Inr db' \<Rightarrow> (None, w\<lparr>pg := db'\<rparr>)))"

subsection \<open>\<^verbatim>\<open>UserPostgres\<close>\<close>

definition User_Create ::
  "env \<Rightarrow> sql_tx \<Rightarrow> world \<Rightarrow> user \<Rightarrow> error option \<times> sql_tx \<times> world" where
  "User_Create env tx w u =
     (case Tx_Exec (fail_UserCreate env) (\<lambda>db. insert_user db u) tx of
        (err, tx') \<Rightarrow> (err, tx', record_call (CallUserCreate u) w))"

definition User_FindByEmail :: "env \<Rightarrow> world \<Rightarrow> string \<Rightarrow> (error + user) \<times> world" where
  "User_FindByEmail env w email =
     (let w' = record_call (CallFindByEmail email) w in
      case fail_FindByEmail env of
        Some m \<Rightarrow> (Inl (Wrapf ''user not found'' (External m)), w')
      | None \<Rightarrow>
         (case find (\<lambda>u. Email u = email) (users (pg w)) of
            None \<Rightarrow> (Inl (Wrapf ''user not found'' ErrNoRows), w')
          | Some u \<Rightarrow> (Inr u, w')))"

subsection \<open>\<^verbatim>\<open>RefreshTokenPostgres\<close>\<close>

definition RefreshToken_Create :: "env \<Rightarrow> world \<Rightarrow> refresh_token \<Rightarrow> error option \<times> world" where
  "RefreshToken_Create env w s =
     (case Db_Exec (fail_RefreshTokenCreate env) (\<lambda>db. upsert_refresh_token db s)
             (record_call (CallRefreshTokenCreate s) w) of
        (Some e, w') \<Rightarrow> (Some (Wrapf ''error inserting or updating refresh token'' e), w')
      | (None, w') \<Rightarrow> (None, w'))"

definition RefreshToken_FindByRefreshToken ::
  "env \<Rightarrow> world \<Rightarrow> string \<Rightarrow> (error + refresh_token) \<times> world" where
  "RefreshToken_FindByRefreshToken env w t =
     (let w' = record_call (CallFindByRefreshToken t) w in
      case fail_FindByRefreshToken env of
        Some m \<Rightarrow> (Inl (Wrapf ''refresh token not found'' (External m)), w')
      | None \<Rightarrow>
         (case find (\<lambda>r. RefreshToken r = t \<and> now env < ExpiresAt r)
                 (refresh_token_tbl (pg w)) of
            None \<Rightarrow> (Inl (Wrapf ''refresh token not found'' ErrNoRows), w')
          | Some r \<Rightarrow> (Inr r, w')))"

subsection \<open>\<^verbatim>\<open>ReferralPostgres\<close>\<close>

definition Referral_CreateReferral ::
  "env \<Rightarrow> sql_tx \<Rightarrow> world \<Rightarrow> referral_user \<Rightarrow> error option \<times> sql_tx \<times> world" where
  "Referral_CreateReferral env tx w r =
     (case Tx_Exec (fail_CreateReferral env) (\<lambda>db. insert_referral db r) tx of
        (err, tx') \<Rightarrow> (err, tx', record_call (CallCreateReferral r) w))"

definition Referral_CreateReferralCode :: "env \<Rightarrow> world \<Rightarrow> referral \<Rightarrow> error option \<times> world" where
  "Referral_CreateReferralCode env w r =
     (let expiresAt = now env + TTL r in
      case Db_Exec (fail_CreateReferralCode env)
             (\<lambda>db. upsert_referral_code db
                      \<lparr>rc_user_id = ref_UserId r, rc_code = ReferralCode r, rc_expires_at = expiresAt\<rparr>)
             (record_call (CallCreateReferralCode r) w) of
        (Some e, w') \<Rightarrow> (Some (Wrapf ''error inserting or updating referral'' e), w')
      | (None, w') \<Rightarrow> (None, w'))"

text \<open>
  \<^verbatim>\<open>FindCodeByUserID\<close> returns a slice and an error. The slice starts as \<^verbatim>\<open>nil\<close>
  (\<open>None\<close>) and \<^verbatim>\<open>SelectContext\<close> appends one element per row; the query selects
  \<^verbatim>\<open>user_id\<close> and \<^verbatim>\<open>code\<close> only, so \<^verbatim>\<open>TTL\<close> stays zero. A failure of the
  driver comes after \<open>k\<close> rows have been read, and the rows read so far are returned
  with the error.
\<close>

definition live_codes :: "time \<Rightarrow> uuid \<Rightarrow> database \<Rightarrow> code_row list" where
  "live_codes t uid db =
     filter (\<lambda>r. rc_user_id r = uid \<and> t < rc_expires_at r) (referral_code_tbl db)"

definition scan_referral :: "code_row \<Rightarrow> referral" where
  "scan_referral r = \<lparr>ReferralCode = rc_code r, ref_UserId = rc_user_id r, TTL = 0\<rparr>"

definition Referral_FindCodeByUserID ::
  "env \<Rightarrow> world \<Rightarrow> uuid \<Rightarrow> (referral list option \<times> error option) \<times> world" where
  "Referral_FindCodeByUserID env w uid =
     (let w' = record_call (CallFindCodeByUserID uid) w in
      case fail_FindCodeByUserID env of
        Some (m, k) \<Rightarrow>
         (case take k (live_codes (now env) uid (pg w)) of
            [] \<Rightarrow> ((None, Some (External m)), w')
          | r # rs \<Rightarrow> ((Some (map scan_referral (r # rs)), Some (External m)), w'))
      | None \<Rightarrow>
         (case live_codes (now env) uid (pg w) of
            [] \<Rightarrow> ((None, None), w')
          | r # rs \<Rightarrow> ((Some (map scan_referral (r # rs)), None), w')))"

subsection \<open>\<^verbatim>\<open>ReferralRedis\<close>\<close>

text \<open>
  \<^verbatim>\<open>redisClient.Set(key, value, ttl)\<close> gives the key an expiry when \<open>ttl\<close> is positive,
  keeps the expiry the key has when \<open>ttl\<close> is \<^verbatim>\<open>redis.KeepTTL\<close> (\<open>-1\<close>), and none
  otherwise. The client does not send \<open>ttl\<close> itself: a \<open>ttl\<close> that is not a whole
  number of seconds goes as \<^verbatim>\<open>PX\<close> with \<open>formatMs ttl\<close> milliseconds, a whole number of
  seconds as \<^verbatim>\<open>EX\<close> with \<open>formatSec ttl\<close> seconds, both rounded down and at least one.
  \<^verbatim>\<open>redisClient.Get\<close> answers \<^verbatim>\<open>redis.Nil\<close> for a key that is absent or expired. The
  server counts time in milliseconds; the model keeps the instant of the write to the
  nanosecond, so the end of an entry's life is right up to the server's millisecond. The
  line that \<^verbatim>\<open>Create\<close> prints on standard output is not recorded.
\<close>

definition Millisecond :: duration where
  "Millisecond = 1000000"

definition Second :: duration where
  "Second = 1000000000"

definition usePrecise :: "duration \<Rightarrow> bool" where
  "usePrecise dur \<longleftrightarrow> dur < Second \<or> dur mod Second \<noteq> 0"

definition formatMs :: "duration \<Rightarrow> int" where
  "formatMs dur = (if 0 < dur \<and> dur < Millisecond then 1 else dur div Millisecond)"

definition formatSec :: "duration \<Rightarrow> int" where
  "formatSec dur = (if 0 < dur \<and> dur < Second then 1 else dur div Second)"

definition sent_lifetime :: "duration \<Rightarrow> duration" where
  "sent_lifetime ttl =
     (if usePrecise ttl then formatMs ttl * Millisecond else formatSec ttl * Second)"

definition redis_live :: "time \<Rightarrow> (string \<times> time option) option \<Rightarrow> bool" where
  "redis_live t e =
     (case e of
        None \<Rightarrow> False
      | Some (v, None) \<Rightarrow> True
      | Some (v, Some x) \<Rightarrow> t < x)"

definition redisClient_Set ::
  "env \<Rightarrow> world \<Rightarrow> string \<Rightarrow> string \<Rightarrow> duration \<Rightarrow> error option \<times> world" where
  "redisClient_Set env w k v ttl =
     (let w' = record_call (CallRedisSet k v ttl) w in
      case fail_RedisSet env of
        Some m \<Rightarrow> (Some (External m), w')
      | None \<Rightarrow>
         (let expiry =
                (if 0 < ttl then Some (now env + sent_lifetime ttl)
                 else if ttl = - 1 \<and> redis_live (now env) (redis w k)
                   then snd (the (redis w k))
                 else None)
          in (None, w'\<lparr>redis := (redis w')(k \<mapsto> (v, expiry))\<rparr>)))"

definition redisClient_Get :: "env \<Rightarrow> world \<Rightarrow> string \<Rightarrow> (error + string) \<times> world" where
  "redisClient_Get env w k =
     (let w' = record_call (CallRedisGet k) w in
      case fail_RedisGet env of
        Some m \<Rightarrow> (Inl (External m), w')
      | None \<Rightarrow>
         (if redis_live (now env) (redis w k) then (Inr (fst (the (redis w k))), w')
          else (Inl RedisNil, w')))"

definition ReferralRedis_Create :: "env \<Rightarrow> world \<Rightarrow> referral \<Rightarrow> error option \<times> world" where
  "ReferralRedis_Create env w r =
     (case redisClient_Set env w (ReferralCode r) (uuid_String (ref_UserId r)) (TTL r) of
        (Some e, w') \<Rightarrow> (Some (Wrapf ''error setting referral code in Redis'' e), w')
      | (None, w') \<Rightarrow> (None, w'))"

definition ReferralRedis_FindByReferralCode ::
  "env \<Rightarrow> world \<Rightarrow> string \<Rightarrow> (error + uuid) \<times> world" where
  "ReferralRedis_FindByReferralCode env w referralCode =
     (case redisClient_Get env w referralCode of
        (Inl e, w') \<Rightarrow>
          (if e = RedisNil then (Inl (Errorf (''referral code not found: '' @ referralCode)), w')
           else (Inl (Wrapf ''error getting referral code from Redis'' e), w'))
      | (Inr creatorIDStr, w') \<Rightarrow>
          (case uuid_Parse (Quote env) creatorIDStr of
             Inl m \<Rightarrow> (Inl (Wrapf ''error parsing user ID from referral code'' (External m)), w')
           | Inr uid \<Rightarrow> (Inr uid, w')))"

subsection \<open>\<^verbatim>\<open>UserService\<close>\<close>

record Tokens =
  AccessToken :: string
  tk_RefreshToken :: string

record SignInInput =
  si_Email :: string
  si_Password :: string

record SignUpInput =
  su_Email :: string
  su_Password :: string
  su_ReferralCode :: string

record CreateUserInput =
  cu_Email :: string
  cu_Password :: string
  cu_ReferralId :: uuid

definition zero_Tokens :: Tokens where
  "zero_Tokens = \<lparr>AccessToken = [], tk_RefreshToken = []\<rparr>"

definition createSession :: "env \<Rightarrow> world \<Rightarrow> uuid \<Rightarrow> Tokens outcome \<times> world" where
  "createSession env w userID =
     (case NewJWT env (uuid_String userID) (AccessTokenTTL env) of
        Inl m \<Rightarrow> (Fail (External m), w)
      | Inr accessToken \<Rightarrow>
         (case NewRefreshToken env of
            Inl m \<Rightarrow> (Fail (External m), w)
          | Inr refreshToken \<Rightarrow>
             (let session = \<lparr>UserID = userID, RefreshToken = refreshToken,
                             ExpiresAt = now env + RefreshTokenTTL env\<rparr>
              in case RefreshToken_Create env w session of
                   (Some e, w') \<Rightarrow> (Fail e, w')
                 | (None, w') \<Rightarrow>
                     (Ok \<lparr>AccessToken = accessToken, tk_RefreshToken = refreshToken\<rparr>, w'))))"

text \<open>
  The function deferred by \<^verbatim>\<open>createUser\<close>, run at every exit after \<^verbatim>\<open>BeginTxx\<close>:
  \<open>panicked\<close> is whether \<^verbatim>\<open>recover()\<close> returns a value, \<open>err\<close> is the variable
  \<^verbatim>\<open>err\<close> of \<^verbatim>\<open>createUser\<close> at that moment. What \<^verbatim>\<open>Rollback\<close> and \<^verbatim>\<open>Commit\<close>
  return there is dropped: the results of \<^verbatim>\<open>createUser\<close> are not named.
\<close>

definition createUser_deferred ::
  "env \<Rightarrow> bool \<Rightarrow> error option \<Rightarrow> sql_tx \<Rightarrow> world \<Rightarrow> world" where
  "createUser_deferred env panicked err tx w =
     (if panicked then snd (snd (Tx_Rollback tx w))
      else if err \<noteq> None then snd (snd (Tx_Rollback tx w))
      else snd (snd (Tx_Commit env tx w)))"

text \<open>
  \<^verbatim>\<open>createUser\<close> from its line 206 on: the part that runs once \<^verbatim>\<open>BeginTxx\<close> has
  returned the transaction \<open>tx\<close>, with the deferred function run at every exit. A panic
  of \<^verbatim>\<open>uuid.New()\<close> is recovered by the deferred function, after which the call returns
  the zero values \<^verbatim>\<open>(Tokens{}, nil)\<close>.
\<close>

definition createUser_tx ::
  "env \<Rightarrow> sql_tx \<Rightarrow> world \<Rightarrow> CreateUserInput \<Rightarrow> string \<Rightarrow> Tokens outcome \<times> world" where
  "createUser_tx env tx w2 input passwordHash =
     (case uuid_New env of
        None \<Rightarrow> (Ok zero_Tokens, createUser_deferred env True None tx w2)
      | Some newId \<Rightarrow>
     (let user = \<lparr>UserId = newId, Email = cu_Email input, PasswordHash = passwordHash\<rparr> in
      case User_Create env tx w2 user of
        (Some e, tx1, w3) \<Rightarrow> (Fail e, createUser_deferred env False (Some e) tx1 w3)
      | (None, tx1, w3) \<Rightarrow>
     (case (if cu_ReferralId input \<noteq> uuid_Nil
            then Referral_CreateReferral env tx1 w3
                   \<lparr>ru_UserID = UserId user, Referral = cu_ReferralId input\<rparr>
            else (None, tx1, w3)) of
        (Some e, tx2, w4) \<Rightarrow> (Fail e, createUser_deferred env False (Some e) tx2 w4)
      | (None, tx2, w4) \<Rightarrow>
     (case Tx_Commit env tx2 w4 of
        (Some e, tx3, w5) \<Rightarrow> (Fail e, createUser_deferred env False (Some e) tx3 w5)
      | (None, tx3, w5) \<Rightarrow>
     (case createSession env (record_call (LogInfo ''Create user'') w5) (UserId user) of
        (res, w6) \<Rightarrow> (res, createUser_deferred env False None tx3 w6))))))"

definition createUser :: "env \<Rightarrow> world \<Rightarrow> CreateUserInput \<Rightarrow> Tokens outcome \<times> world" where
  "createUser env w input =
     (case User_FindByEmail env w (cu_Email input) of
        (Inr found, w1) \<Rightarrow> (Fail (Errorf ''email already in use''), w1)
      | (Inl notFound, w1) \<Rightarrow>
     (case Hash env (cu_Password input) of
        Inl m \<Rightarrow> (Fail (External m), w1)
      | Inr passwordHash \<Rightarrow>
     (case BeginTxx env w1 of
        (Inl e, w2) \<Rightarrow> (Fail e, w2)
      | (Inr tx, w2) \<Rightarrow> createUser_tx env tx w2 input passwordHash)))"

definition SignIn :: "env \<Rightarrow> world \<Rightarrow> SignInInput \<Rightarrow> Tokens outcome \<times> world" where
  "SignIn env w input =
     (case Hash env (si_Password input) of
        Inl m \<Rightarrow> (Fail (External m), w)
      | Inr passwordHash \<Rightarrow>
         (case User_FindByEmail env w (si_Email input) of
            (Inl e, w1) \<Rightarrow> (Fail e, w1)
          | (Inr user, w1) \<Rightarrow>
             (if PasswordHash user \<noteq> passwordHash
              then (Fail (Errorf ''invalid credentials''), w1)
              else createSession env w1 (UserId user))))"

definition SignUp :: "env \<Rightarrow> world \<Rightarrow> SignUpInput \<Rightarrow> Tokens outcome \<times> world" where
  "SignUp env w input =
     (case (if su_ReferralCode input \<noteq> []
            then ReferralRedis_FindByReferralCode env w (su_ReferralCode input)
            else (Inr uuid_Nil, w)) of
        (Inl e, w1) \<Rightarrow> (Fail (Wrapf ''failed to find referral code'' e), w1)
      | (Inr referralId, w1) \<Rightarrow>
          createUser env w1
            \<lparr>cu_Email = su_Email input, cu_Password = su_Password input,
             cu_ReferralId = referralId\<rparr>)"

definition RefreshTokens :: "env \<Rightarrow> world \<Rightarrow> string \<Rightarrow> Tokens outcome \<times> world" where
  "RefreshTokens env w refreshToken =
     (case RefreshToken_FindByRefreshToken env w refreshToken of
        (Inl e, w1) \<Rightarrow> (Fail (Wrapf ''failed to find refresh token'' e), w1)
      | (Inr session, w1) \<Rightarrow> createSession env w1 (UserID session))"

subsection \<open>\<^verbatim>\<open>ReferralService\<close>\<close>

record ReferralInput =
  ri_UserId :: uuid
  ri_TTL :: duration

definition generateReferralCode :: "env \<Rightarrow> string + string" where
  "generateReferralCode env = NewRefreshToken env"

text \<open>
  \<^verbatim>\<open>CreateCode\<close> from its line 288 on, as a function of the two values that the call of
  \<^verbatim>\<open>r.repos.Referral.FindCodeByUserID\<close> returned (\<^verbatim>\<open>repos.Referral\<close> is an interface).
  \<^verbatim>\<open>res[0]\<close> on an empty slice is a run-time panic.
\<close>

definition CreateCode_found ::
  "env \<Rightarrow> world \<Rightarrow> ReferralInput \<Rightarrow> string \<Rightarrow> referral list option \<Rightarrow> error option
     \<Rightarrow> string outcome \<times> world" where
  "CreateCode_found env w input referralCode res err =
     (case res of
        Some [] \<Rightarrow> (Panic ''index out of range [0] with length 0'', w)
      | Some (r # rs) \<Rightarrow>
          (Fail (Errorf (''referral code '' @ ReferralCode r @ '' already exists'')), w)
      | None \<Rightarrow>
     (case err of
        Some e \<Rightarrow> (Fail e, w)
      | None \<Rightarrow>
     (let referral = \<lparr>ReferralCode = referralCode, ref_UserId = ri_UserId input,
                      TTL = ri_TTL input\<rparr>
      in case Referral_CreateReferralCode env w referral of
        (Some e, w1) \<Rightarrow> (Fail e, w1)
      | (None, w1) \<Rightarrow>
     (case ReferralRedis_Create env w1 referral of
        (Some e, w2) \<Rightarrow> (Fail e, w2)
      | (None, w2) \<Rightarrow> (Ok referralCode, w2)))))"

definition CreateCode :: "env \<Rightarrow> world \<Rightarrow> ReferralInput \<Rightarrow> string outcome \<times> world" where
  "CreateCode env w input =
     (case generateReferralCode env of
        Inl m \<Rightarrow> (Fail (External m), w)
      | Inr referralCode \<Rightarrow>
         (case Referral_FindCodeByUserID env w (ri_UserId input) of
            ((res, err), w1) \<Rightarrow> CreateCode_found env w1 input referralCode res err))"

subsection \<open>Reading the trace\<close>

text \<open>The calls that were made between two states, and two kinds of call.\<close>

definition calls_since :: "world \<Rightarrow> world \<Rightarrow> call list" where
  "calls_since w w' = drop (length (trace w)) (trace w')"

fun is_cache_call :: "call \<Rightarrow> bool" where
  "is_cache_call (CallRedisGet k) = True"
| "is_cache_call (CallRedisSet k v ttl) = True"
| "is_cache_call c = False"

fun is_CreateReferral :: "call \<Rightarrow> bool" where
  "is_CreateReferral (CallCreateReferral r) = True"
| "is_CreateReferral c = False"

subsection \<open>A small state to run the operations on\<close>

text \<open>One registered user with one live refresh token, an empty cache, and an
  environment in which no collaborator fails.\<close>

definition test_db :: database where
  "test_db =
     \<lparr>users = [\<lparr>UserId = 1, Email = ''alice@example.com'', PasswordHash = ''sha1:secret''\<rparr>],
      referral_tbl = [],
      refresh_token_tbl = [\<lparr>UserID = 1, RefreshToken = ''old-token'', ExpiresAt = 100\<rparr>],
      referral_code_tbl = []\<rparr>"

definition test_world :: world where
  "test_world = \<lparr>pg = test_db, redis = Map.empty, trace = []\<rparr>"

definition test_env :: env where
  "test_env =
     \<lparr>now = 10,
      Hash = (\<lambda>p. Inr (''sha1:'' @ p)),
      NewJWT = (\<lambda>subject ttl. Inr ''jwt''),
      NewRefreshToken = Inr ''new-token'',
      uuid_New = Some 2,
      Quote = (\<lambda>s. CHR 0x22 # s @ [CHR 0x22]),
      AccessTokenTTL = 5,
      RefreshTokenTTL = 50,
      fail_FindByEmail = None,
      fail_BeginTxx = None,
      fail_UserCreate = None,
      fail_CreateReferral = None,
      fail_Commit = None,
      fail_FindByRefreshToken = None,
      fail_RefreshTokenCreate = None,
      fail_FindCodeByUserID = None,
      fail_CreateReferralCode = None,
      fail_RedisGet = None,
      fail_RedisSet = None\<rparr>"

section \<open>Properties\<close>

subsection \<open>Identifiers survive the text form\<close>

lemma hex_val_hex_digit: "d < 16 \<Longrightarrow> hex_val (hex_digit d) = Some d"
proof -
  assume "d < 16"
  then consider "d = 0" | "d = 1" | "d = 2" | "d = 3" | "d = 4" | "d = 5" | "d = 6" | "d = 7"
    | "d = 8" | "d = 9" | "d = 10" | "d = 11" | "d = 12" | "d = 13" | "d = 14" | "d = 15"
    by atomize_elim arith
  then show ?thesis
    by cases (simp_all add: hex_val_def hex_digit_def)
qed

lemma length_hex_of: "length (hex_of k n) = k"
  by (induction k arbitrary: n) auto

lemma unhex_snoc:
  "unhex (xs @ [c]) acc =
     (case unhex xs acc of None \<Rightarrow> None
      | Some a \<Rightarrow> (case hex_val c of None \<Rightarrow> None | Some d \<Rightarrow> Some (a * 16 + d)))"
  by (induction xs arbitrary: acc) (auto split: option.splits)

lemma unhex_hex_of: "unhex (hex_of k n) acc = Some (acc * 16 ^ k + n mod 16 ^ k)"
proof (induction k arbitrary: n)
  case 0
  then show ?case by simp
next
  case (Suc k)
  have "(n div 16) mod 16 ^ k * 16 + n mod 16 = n mod (16 * 16 ^ k)"
    by (simp add: mod_mult2_eq)
  then show ?case
    by (simp add: unhex_snoc Suc hex_val_hex_digit algebra_simps)
qed

lemma take_drop_split: "take n (drop m h) @ drop (n + m) h = drop m h"
  using append_take_drop_id [of n "drop m h"] by (simp only: drop_drop)

lemma uuid_String_groups:
  "\<exists>a b c d e. length a = 8 \<and> length b = 4 \<and> length c = 4 \<and> length d = 4 \<and> length e = 12
     \<and> hex_of 32 (unat u) = a @ b @ c @ d @ e
     \<and> uuid_String u = a @ ''-'' @ b @ ''-'' @ c @ ''-'' @ d @ ''-'' @ e"
proof -
  define h where "h = hex_of 32 (unat u)"
  have len: "length h = 32" by (simp add: h_def length_hex_of)
  have "h = take 8 h @ drop 8 h" by simp
  also have "drop 8 h = take 4 (drop 8 h) @ drop 12 h"
    using take_drop_split [of 4 8 h] by simp
  also have "drop 12 h = take 4 (drop 12 h) @ drop 16 h"
    using take_drop_split [of 4 12 h] by simp
  also have "drop 16 h = take 4 (drop 16 h) @ drop 20 h"
    using take_drop_split [of 4 16 h] by simp
  finally have split: "h = take 8 h @ take 4 (drop 8 h) @ take 4 (drop 12 h)
      @ take 4 (drop 16 h) @ drop 20 h" .
  have "uuid_String u = take 8 h @ ''-'' @ take 4 (drop 8 h) @ ''-'' @ take 4 (drop 12 h)
      @ ''-'' @ take 4 (drop 16 h) @ ''-'' @ drop 20 h"
    by (simp add: uuid_String_def h_def Let_def)
  moreover have "length (take 8 h) = 8" "length (take 4 (drop 8 h)) = 4"
    "length (take 4 (drop 12 h)) = 4" "length (take 4 (drop 16 h)) = 4"
    "length (drop 20 h) = 12"
    using len by simp_all
  ultimately show ?thesis
    using split unfolding h_def by blast
qed

lemma parse_hyphenated_groups:
  assumes "length a = 8" "length b = 4" "length c = 4" "length d = 4" "length e = 12"
  shows "parse_hyphenated (a @ ''-'' @ b @ ''-'' @ c @ ''-'' @ d @ ''-'' @ e) =
           (case unhex (a @ b @ c @ d @ e) 0 of
              None \<Rightarrow> Inl ''invalid UUID format''
            | Some n \<Rightarrow> Inr (word_of_nat n))"
proof -
  let ?s = "a @ ''-'' @ b @ ''-'' @ c @ ''-'' @ d @ ''-'' @ e"
  have n: "?s ! 8 = CHR ''-''" "?s ! 13 = CHR ''-''" "?s ! 18 = CHR ''-''" "?s ! 23 = CHR ''-''"
    using assms by (simp_all add: nth_append)
  have t: "take 8 ?s = a" "take 4 (drop 9 ?s) = b" "take 4 (drop 14 ?s) = c"
    "take 4 (drop 19 ?s) = d" "take 12 (drop 24 ?s) = e"
    using assms by simp_all
  show ?thesis
    unfolding parse_hyphenated_def by (simp only: n t) simp
qed

lemma uuid_Parse_String: "uuid_Parse quote (uuid_String u) = Inr u"
proof -
  obtain a b c d e where len: "length a = 8" "length b = 4" "length c = 4" "length d = 4"
      "length e = 12"
    and h: "hex_of 32 (unat u) = a @ b @ c @ d @ e"
    and s: "uuid_String u = a @ ''-'' @ b @ ''-'' @ c @ ''-'' @ d @ ''-'' @ e"
    using uuid_String_groups [of u] by blast
  have "unat u < 2 ^ 128"
    using unsigned_less [of u, where ?'a = nat] by simp
  then have small: "unat u mod 16 ^ 32 = unat u" by simp
  have "unhex (a @ b @ c @ d @ e) 0 = Some (unat u)"
    using unhex_hex_of [of 32 "unat u" 0] small by (simp only: h) simp
  moreover have "length (uuid_String u) = 36"
    by (simp add: s len)
  ultimately show ?thesis
    using parse_hyphenated_groups [OF len] by (simp add: uuid_Parse_def s)
qed

subsection \<open>Traces, statements and transactions\<close>

lemma record_call_simps [simp]:
  "pg (record_call c w) = pg w" "redis (record_call c w) = redis w"
  "trace (record_call c w) = trace w @ [c]"
  by (simp_all add: record_call_def)

lemma calls_since_append [simp]: "trace w' = trace w @ evs \<Longrightarrow> calls_since w w' = evs"
  by (simp add: calls_since_def)

lemma Tx_Exec_done: "tx_done (snd (Tx_Exec fault stmt tx)) = tx_done tx"
  by (auto simp: Tx_Exec_def split: if_splits option.splits sum.splits)

lemma Tx_Rollback_world: "snd (snd (Tx_Rollback tx w)) = record_call CallRollback w"
  by (simp add: Tx_Rollback_def Let_def)

lemma Tx_Commit_done_world:
  "tx_done tx \<Longrightarrow> snd (snd (Tx_Commit env tx w)) = record_call CallCommit w"
  by (simp add: Tx_Commit_def Let_def)

lemma User_Create_eq:
  "User_Create env tx w u =
     (fst (Tx_Exec (fail_UserCreate env) (\<lambda>db. insert_user db u) tx),
      snd (Tx_Exec (fail_UserCreate env) (\<lambda>db. insert_user db u) tx),
      record_call (CallUserCreate u) w)"
  by (simp add: User_Create_def split: prod.splits)

lemma Referral_CreateReferral_eq:
  "Referral_CreateReferral env tx w r =
     (fst (Tx_Exec (fail_CreateReferral env) (\<lambda>db. insert_referral db r) tx),
      snd (Tx_Exec (fail_CreateReferral env) (\<lambda>db. insert_referral db r) tx),
      record_call (CallCreateReferral r) w)"
  by (simp add: Referral_CreateReferral_def split: prod.splits)

lemma insert_user_frame:
  "insert_user db u = Inr db' \<Longrightarrow>
     referral_tbl db' = referral_tbl db \<and> refresh_token_tbl db' = refresh_token_tbl db
     \<and> referral_code_tbl db' = referral_code_tbl db"
  by (auto simp: insert_user_def split: if_splits)

lemma upsert_refresh_token_frame:
  "upsert_refresh_token db s = Inr db' \<Longrightarrow>
     users db' = users db \<and> referral_tbl db' = referral_tbl db
     \<and> referral_code_tbl db' = referral_code_tbl db"
  by (auto simp: upsert_refresh_token_def split: if_splits)

lemma Tx_Exec_insert_user_frame:
  "referral_tbl (tx_db (snd (Tx_Exec fault (\<lambda>db. insert_user db u) tx))) = referral_tbl (tx_db tx)"
  by (auto simp: Tx_Exec_def dest: insert_user_frame split: option.splits sum.splits)

lemma stmt_errors:
  "insert_user db u \<noteq> Inl (Errorf m)" "insert_referral db r \<noteq> Inl (Errorf m)"
  by (simp_all add: insert_user_def insert_referral_def pq_unique_violation_def
      pq_foreign_key_violation_def)

lemma Tx_Exec_error:
  "fst (Tx_Exec fault stmt tx) = Some e \<Longrightarrow> (\<And>db. stmt db \<noteq> Inl (Errorf m))
     \<Longrightarrow> (e = Errorf m) = False"
  by (auto simp: Tx_Exec_def split: option.splits sum.splits if_splits)

subsection \<open>Sessions\<close>

lemma createSession_frame:
  "redis (snd (createSession env w uid)) = redis w
   \<and> users (pg (snd (createSession env w uid))) = users (pg w)
   \<and> referral_tbl (pg (snd (createSession env w uid))) = referral_tbl (pg w)
   \<and> referral_code_tbl (pg (snd (createSession env w uid))) = referral_code_tbl (pg w)"
  by (simp add: createSession_def RefreshToken_Create_def Db_Exec_def Let_def
      upsert_refresh_token_frame
      split: sum.splits option.splits prod.splits)

lemma createSession_error:
  "fst (createSession env w uid) \<noteq> Fail (Errorf m)"
  by (simp add: createSession_def RefreshToken_Create_def Db_Exec_def Let_def
      split: sum.splits option.splits prod.splits)

lemma createSession_calls:
  "trace (snd (createSession env w uid)) = trace w @ calls_since w (snd (createSession env w uid))"
  "CallCommit \<notin> set (calls_since w (snd (createSession env w uid)))"
  "CallRollback \<notin> set (calls_since w (snd (createSession env w uid)))"
  "\<not> list_ex is_cache_call (calls_since w (snd (createSession env w uid)))"
  "\<not> list_ex is_CreateReferral (calls_since w (snd (createSession env w uid)))"
  by (simp_all add: createSession_def RefreshToken_Create_def Db_Exec_def Let_def calls_since_def
      split: sum.splits option.splits prod.splits)

lemma createSession_success:
  assumes "createSession env w uid = (Ok tokens, w')"
  shows "upsert_refresh_token (pg w)
           \<lparr>UserID = uid, RefreshToken = tk_RefreshToken tokens,
            ExpiresAt = now env + RefreshTokenTTL env\<rparr> = Inr (pg w')"
    and "redis w' = redis w"
    and "NewRefreshToken env = Inr (tk_RefreshToken tokens)"
  using assms
  by (auto simp: createSession_def RefreshToken_Create_def Db_Exec_def record_call_def Let_def
      split: sum.splits option.splits prod.splits)

subsection \<open>The transactional part of \<^verbatim>\<open>createUser\<close>, exit by exit\<close>

lemma createUser_deferred_failed:
  "createUser_deferred env False (Some e) tx w = record_call CallRollback w"
  "createUser_deferred env True err tx w = record_call CallRollback w"
  by (simp_all add: createUser_deferred_def Tx_Rollback_world)

lemma createUser_deferred_done:
  "tx_done tx \<Longrightarrow> createUser_deferred env False None tx w = record_call CallCommit w"
  by (simp add: createUser_deferred_def Tx_Commit_done_world)

lemma createUser_tx_panic:
  "uuid_New env = None \<Longrightarrow>
     createUser_tx env tx w input h = (Ok zero_Tokens, record_call CallRollback w)"
  by (simp add: createUser_tx_def createUser_deferred_failed)

lemma createUser_tx_user_fails:
  fixes env tx input h newId
  defines "user \<equiv> \<lparr>UserId = newId, Email = cu_Email input, PasswordHash = h\<rparr>"
  assumes "uuid_New env = Some newId"
    and "fst (Tx_Exec (fail_UserCreate env) (\<lambda>db. insert_user db user) tx) = Some e"
  shows "createUser_tx env tx w input h =
           (Fail e, record_call CallRollback (record_call (CallUserCreate user) w))"
  using assms(2,3) unfolding user_def
  by (simp add: createUser_tx_def User_Create_eq createUser_deferred_failed Let_def)

lemma createUser_tx_referral_fails:
  fixes env tx input h newId
  defines "user \<equiv> \<lparr>UserId = newId, Email = cu_Email input, PasswordHash = h\<rparr>"
    and "edge \<equiv> \<lparr>ru_UserID = newId, Referral = cu_ReferralId input\<rparr>"
  defines "write1 \<equiv> Tx_Exec (fail_UserCreate env) (\<lambda>db. insert_user db user) tx"
  assumes "uuid_New env = Some newId"
    and "fst write1 = None"
    and "cu_ReferralId input \<noteq> uuid_Nil"
    and "fst (Tx_Exec (fail_CreateReferral env) (\<lambda>db. insert_referral db edge) (snd write1)) = Some e"
  shows "createUser_tx env tx w input h =
           (Fail e, record_call CallRollback
              (record_call (CallCreateReferral edge) (record_call (CallUserCreate user) w)))"
  using assms(4-) unfolding write1_def user_def edge_def
  by (simp add: createUser_tx_def User_Create_eq Referral_CreateReferral_eq
      createUser_deferred_failed Let_def)

lemma createUser_tx_writes_ok:
  fixes env tx input h newId w
  defines "user \<equiv> \<lparr>UserId = newId, Email = cu_Email input, PasswordHash = h\<rparr>"
    and "edge \<equiv> \<lparr>ru_UserID = newId, Referral = cu_ReferralId input\<rparr>"
  defines "write1 \<equiv> Tx_Exec (fail_UserCreate env) (\<lambda>db. insert_user db user) tx"
  defines "write2 \<equiv> (if cu_ReferralId input \<noteq> uuid_Nil
                   then Tx_Exec (fail_CreateReferral env) (\<lambda>db. insert_referral db edge)
                          (snd write1)
                   else (None, snd write1))"
    and "w4 \<equiv> (if cu_ReferralId input \<noteq> uuid_Nil
               then record_call (CallCreateReferral edge) (record_call (CallUserCreate user) w)
               else record_call (CallUserCreate user) w)"
  defines "w5 \<equiv> record_call (LogInfo ''Create user'')
                   ((record_call CallCommit w4)\<lparr>pg := tx_db (snd write2)\<rparr>)"
  assumes "uuid_New env = Some newId"
    and "fst write1 = None" and "fst write2 = None"
    and "\<not> tx_done tx"
  shows "createUser_tx env tx w input h =
           (case fail_Commit env of
              Some m \<Rightarrow> (Fail (External m), record_call CallRollback (record_call CallCommit w4))
            | None \<Rightarrow>
               (fst (createSession env w5 newId),
                record_call CallCommit (snd (createSession env w5 newId))))"
  using assms(7-) unfolding w5_def w4_def write2_def write1_def user_def edge_def
  by (simp add: createUser_tx_def User_Create_eq Referral_CreateReferral_eq Tx_Commit_def
      Tx_Exec_done createUser_deferred_failed createUser_deferred_done Let_def case_prod_unfold
      split: option.splits if_splits)

lemma createUser_tx_error:
  "fst (createUser_tx env tx w input h) \<noteq> Fail (Errorf m)"
  by (simp add: createUser_tx_def User_Create_eq Referral_CreateReferral_eq Tx_Commit_def
      Tx_Exec_error stmt_errors createSession_error Let_def case_prod_unfold
      split: option.splits)

lemmas repo_defs = User_FindByEmail_def BeginTxx_def User_Create_def Referral_CreateReferral_def
  Tx_Commit_def Tx_Rollback_def Tx_Exec_def Db_Exec_def RefreshToken_Create_def
  record_call_def createUser_deferred_def createSession_def

lemma createUser_tx_calls:
  "\<exists>evs. trace (snd (createUser_tx env tx w input h)) = trace w @ evs
     \<and> \<not> list_ex is_cache_call evs
     \<and> (cu_ReferralId input = uuid_Nil \<longrightarrow> \<not> list_ex is_CreateReferral evs)"
  by (simp add: createUser_tx_def repo_defs Let_def
      split: option.splits sum.splits prod.splits)

lemma createUser_tx_redis: "redis (snd (createUser_tx env tx w input h)) = redis w"
  by (simp add: createUser_tx_def User_Create_eq Referral_CreateReferral_eq Tx_Commit_def
      createUser_deferred_def Tx_Rollback_def createSession_frame Let_def case_prod_unfold
      split: option.splits)

lemma createUser_tx_no_edge:
  "cu_ReferralId input = uuid_Nil \<Longrightarrow> tx_db tx = pg w \<Longrightarrow>
     referral_tbl (pg (snd (createUser_tx env tx w input h))) = referral_tbl (pg w)"
  by (simp add: createUser_tx_def User_Create_eq Referral_CreateReferral_eq Tx_Commit_def
      createUser_deferred_def Tx_Rollback_def createSession_frame Tx_Exec_insert_user_frame
      Tx_Exec_done Let_def case_prod_unfold
      split: option.splits)

subsection \<open>\<^verbatim>\<open>createUser\<close> up to the transaction\<close>

lemma User_FindByEmail_world [simp]:
  "snd (User_FindByEmail env w e) = record_call (CallFindByEmail e) w"
  by (simp add: User_FindByEmail_def Let_def split: option.splits)

lemma User_FindByEmail_pg:
  "pg w1 = pg w \<Longrightarrow> fst (User_FindByEmail env w1 e) = fst (User_FindByEmail env w e)"
  by (simp add: User_FindByEmail_def Let_def split: option.splits)

lemma createUser_found:
  "fst (User_FindByEmail env w (cu_Email input)) = Inr u \<Longrightarrow>
     createUser env w input =
       (Fail (Errorf ''email already in use''), record_call (CallFindByEmail (cu_Email input)) w)"
  by (simp add: createUser_def case_prod_unfold)

lemma createUser_hash_fails:
  "fst (User_FindByEmail env w (cu_Email input)) = Inl e \<Longrightarrow>
   Hash env (cu_Password input) = Inl m \<Longrightarrow>
     createUser env w input =
       (Fail (External m), record_call (CallFindByEmail (cu_Email input)) w)"
  by (simp add: createUser_def case_prod_unfold)

lemma createUser_begin_fails:
  "fst (User_FindByEmail env w (cu_Email input)) = Inl e \<Longrightarrow>
   Hash env (cu_Password input) = Inr h \<Longrightarrow> fail_BeginTxx env = Some m \<Longrightarrow>
     createUser env w input =
       (Fail (External m),
        record_call CallBeginTxx (record_call (CallFindByEmail (cu_Email input)) w))"
  by (simp add: createUser_def BeginTxx_def case_prod_unfold Let_def)

lemma createUser_proceeds:
  "fst (User_FindByEmail env w (cu_Email input)) = Inl e \<Longrightarrow>
   Hash env (cu_Password input) = Inr h \<Longrightarrow> fail_BeginTxx env = None \<Longrightarrow>
     createUser env w input =
       createUser_tx env \<lparr>tx_db = pg w, tx_done = False\<rparr>
         (record_call CallBeginTxx (record_call (CallFindByEmail (cu_Email input)) w)) input h"
  by (simp add: createUser_def BeginTxx_def case_prod_unfold Let_def)

lemma createUser_cases [case_names found hash_fails begin_fails proceeds]:
  obtains
    (found) u where "fst (User_FindByEmail env w (cu_Email input)) = Inr u"
      "createUser env w input =
         (Fail (Errorf ''email already in use''), record_call (CallFindByEmail (cu_Email input)) w)"
  | (hash_fails) e m where "fst (User_FindByEmail env w (cu_Email input)) = Inl e"
      "createUser env w input =
         (Fail (External m), record_call (CallFindByEmail (cu_Email input)) w)"
  | (begin_fails) e m where "fst (User_FindByEmail env w (cu_Email input)) = Inl e"
      "createUser env w input =
         (Fail (External m),
          record_call CallBeginTxx (record_call (CallFindByEmail (cu_Email input)) w))"
  | (proceeds) e h where "fst (User_FindByEmail env w (cu_Email input)) = Inl e"
      "createUser env w input =
         createUser_tx env \<lparr>tx_db = pg w, tx_done = False\<rparr>
           (record_call CallBeginTxx (record_call (CallFindByEmail (cu_Email input)) w)) input h"
proof (cases "fst (User_FindByEmail env w (cu_Email input))")
  case (Inr u)
  then show ?thesis using found createUser_found by simp
next
  case (Inl e)
  show ?thesis
  proof (cases "Hash env (cu_Password input)")
    case m: (Inl m)
    show ?thesis using hash_fails [OF Inl createUser_hash_fails [OF Inl m]] .
  next
    case (Inr h)
    show ?thesis
    proof (cases "fail_BeginTxx env")
      case None
      show ?thesis using proceeds [OF Inl createUser_proceeds [OF Inl Inr None]] .
    next
      case (Some m)
      show ?thesis using begin_fails [OF Inl createUser_begin_fails [OF Inl Inr Some]] .
    qed
  qed
qed

lemma createUser_error_origin:
  "fst (createUser env w input) = Fail (Errorf m) \<longleftrightarrow>
     m = ''email already in use'' \<and> (\<exists>u. fst (User_FindByEmail env w (cu_Email input)) = Inr u)"
proof (cases "fst (User_FindByEmail env w (cu_Email input))")
  case (Inr u)
  then show ?thesis by (auto simp: createUser_found)
next
  case (Inl e)
  show ?thesis
  proof (cases "Hash env (cu_Password input)")
    case m: (Inl m')
    show ?thesis using Inl m by (simp add: createUser_hash_fails)
  next
    case (Inr h)
    show ?thesis
    proof (cases "fail_BeginTxx env")
      case None
      show ?thesis using Inl Inr None createUser_tx_error
        by (simp add: createUser_proceeds)
    next
      case (Some m')
      show ?thesis using Inl Inr Some by (simp add: createUser_begin_fails)
    qed
  qed
qed

lemma createUser_calls:
  "\<exists>evs. trace (snd (createUser env w input)) = trace w @ evs
     \<and> \<not> list_ex is_cache_call evs
     \<and> (cu_ReferralId input = uuid_Nil \<longrightarrow> \<not> list_ex is_CreateReferral evs)"
proof -
  have tx: "\<exists>evs. trace (snd (createUser_tx env tx w2 input h)) = trace w2 @ evs
     \<and> \<not> list_ex is_cache_call evs
     \<and> (cu_ReferralId input = uuid_Nil \<longrightarrow> \<not> list_ex is_CreateReferral evs)" for tx w2 h
    by (rule createUser_tx_calls)
  show ?thesis
  proof (cases "fst (User_FindByEmail env w (cu_Email input))")
    case (Inr u)
    then show ?thesis
      by (simp add: createUser_def User_FindByEmail_def Let_def split: option.splits)
  next
    case (Inl e)
    show ?thesis
    proof (cases "Hash env (cu_Password input)")
      case (Inl m)
      then show ?thesis
        by (simp add: createUser_def User_FindByEmail_def Let_def split: option.splits)
    next
      case (Inr h)
      show ?thesis
      proof (cases "fail_BeginTxx env")
        case (Some m)
        then show ?thesis using Inr
          by (simp add: createUser_def User_FindByEmail_def BeginTxx_def Let_def
              split: option.splits)
      next
        case None
        let ?w2 = "record_call CallBeginTxx (record_call (CallFindByEmail (cu_Email input)) w)"
        have eq: "createUser env w input =
            createUser_tx env \<lparr>tx_db = pg w, tx_done = False\<rparr> ?w2 input h"
          using Inl Inr None
          by (simp add: createUser_def User_FindByEmail_def BeginTxx_def Let_def
              split: option.splits)
        obtain evs where "trace (snd (createUser_tx env \<lparr>tx_db = pg w, tx_done = False\<rparr> ?w2 input h))
            = trace ?w2 @ evs" "\<not> list_ex is_cache_call evs"
            "cu_ReferralId input = uuid_Nil \<longrightarrow> \<not> list_ex is_CreateReferral evs"
          using tx by blast
        then show ?thesis
          by (simp add: eq)
      qed
    qed
  qed
qed

lemma createUser_redis: "redis (snd (createUser env w input)) = redis w"
  by (cases rule: createUser_cases [of env w input]) (simp_all add: createUser_tx_redis)

lemma createUser_no_edge:
  "cu_ReferralId input = uuid_Nil \<Longrightarrow>
     referral_tbl (pg (snd (createUser env w input))) = referral_tbl (pg w)"
  by (cases rule: createUser_cases [of env w input]) (simp_all add: createUser_tx_no_edge)

lemma ReferralRedis_FindByReferralCode_frame:
  "pg (snd (ReferralRedis_FindByReferralCode env w c)) = pg w"
  "redis (snd (ReferralRedis_FindByReferralCode env w c)) = redis w"
  by (simp_all add: ReferralRedis_FindByReferralCode_def redisClient_Get_def Let_def
      split: option.splits sum.splits)

subsection \<open>Referral codes in the store\<close>

lemma sent_lifetime_positive: "0 < ttl \<Longrightarrow> 0 < sent_lifetime ttl"
proof -
  assume pos: "0 < ttl"
  show ?thesis
  proof (cases "usePrecise ttl")
    case True
    have "0 < formatMs ttl"
      using pos by (simp add: formatMs_def Millisecond_def pos_imp_zdiv_pos_iff)
    then show ?thesis
      using True by (simp add: sent_lifetime_def Millisecond_def)
  next
    case False
    then have "Second \<le> ttl" by (simp add: usePrecise_def)
    then have "0 < formatSec ttl"
      by (simp add: formatSec_def Second_def pos_imp_zdiv_pos_iff)
    then show ?thesis
      using False by (simp add: sent_lifetime_def Second_def)
  qed
qed

lemma CreateCode_success:
  assumes "CreateCode env w input = (Ok code, w')"
  shows "NewRefreshToken env = Inr code \<and> fail_FindCodeByUserID env = None
       \<and> live_codes (now env) (ri_UserId input) (pg w) = []
       \<and> fail_CreateReferralCode env = None \<and> fail_RedisSet env = None
       \<and> upsert_referral_code (pg w)
            \<lparr>rc_user_id = ri_UserId input, rc_code = code,
             rc_expires_at = now env + ri_TTL input\<rparr> = Inr (pg w')
       \<and> redis w' = (redis w)(code \<mapsto> (uuid_String (ri_UserId input),
            if 0 < ri_TTL input then Some (now env + sent_lifetime (ri_TTL input))
            else if ri_TTL input = - 1 \<and> redis_live (now env) (redis w code)
              then snd (the (redis w code)) else None))"
  using assms
  by (auto simp: CreateCode_def CreateCode_found_def generateReferralCode_def
      Referral_FindCodeByUserID_def Referral_CreateReferralCode_def ReferralRedis_Create_def
      redisClient_Set_def Db_Exec_def Let_def
      split: option.splits sum.splits list.splits prod.splits if_splits)

lemma CreateCode_success_store:
  assumes "CreateCode env w \<lparr>ri_UserId = uid, ri_TTL = ttl\<rparr> = (Ok code, w')"
  shows "live_codes (now env) uid (pg w) = []"
    and "upsert_referral_code (pg w)
           \<lparr>rc_user_id = uid, rc_code = code, rc_expires_at = now env + ttl\<rparr> = Inr (pg w')"
  using CreateCode_success [OF assms] by simp_all

lemma updated_code_row:
  "rc_user_id x = rc_user_id c \<Longrightarrow>
     x\<lparr>rc_code := rc_code c, rc_expires_at := rc_expires_at c\<rparr> = (c :: code_row)"
  by (cases x, cases c) simp

lemma upsert_referral_code_member:
  assumes "upsert_referral_code db c = Inr db'"
  shows "c \<in> set (referral_code_tbl db')"
proof (cases "list_ex (same_code c) (referral_code_tbl db)")
  case True
  then obtain x where x: "x \<in> set (referral_code_tbl db)" "same_code c x"
    by (auto simp: list_ex_iff)
  then have "c = (if same_code c x
              then x\<lparr>rc_code := rc_code c, rc_expires_at := rc_expires_at c\<rparr> else x)"
    by (simp add: same_code_def updated_code_row)
  then have "c \<in> (\<lambda>r. if same_code c r
              then r\<lparr>rc_code := rc_code c, rc_expires_at := rc_expires_at c\<rparr> else r)
              ` set (referral_code_tbl db)"
    using x(1) by (rule image_eqI)
  moreover have "referral_code_tbl db' = map (\<lambda>r. if same_code c r
              then r\<lparr>rc_code := rc_code c, rc_expires_at := rc_expires_at c\<rparr> else r)
              (referral_code_tbl db)"
    using assms True by (auto simp: upsert_referral_code_def)
  ultimately show ?thesis by simp
next
  case False
  then show ?thesis
    using assms by (auto simp: upsert_referral_code_def split: if_splits)
qed

lemma upsert_referral_code_rows:
  assumes "upsert_referral_code db c = Inr db'"
  shows "set (referral_code_tbl db') \<subseteq> insert c (set (referral_code_tbl db))"
    and "users db' = users db"
  using assms
  by (auto simp: upsert_referral_code_def same_code_def updated_code_row split: if_splits)

lemma live_codes_after_upsert:
  assumes "upsert_referral_code db c = Inr db'"
    and "live_codes t0 (rc_user_id c) db = []"
    and "t0 \<le> t"
  shows "set (live_codes t (rc_user_id c) db') = (if t < rc_expires_at c then {c} else {})"
proof -
  have old: "\<not> t < rc_expires_at r" if "r \<in> set (referral_code_tbl db)"
    "rc_user_id r = rc_user_id c" for r
  proof -
    have "r \<notin> set (live_codes t0 (rc_user_id c) db)" using assms(2) by simp
    then have "\<not> t0 < rc_expires_at r" using that by (simp add: live_codes_def)
    then show ?thesis using assms(3) by simp
  qed
  have sub: "set (live_codes t (rc_user_id c) db') \<subseteq> {c}"
    using upsert_referral_code_rows(1) [OF assms(1)] old
    by (auto simp: live_codes_def)
  show ?thesis
  proof (cases "t < rc_expires_at c")
    case True
    then have "c \<in> set (live_codes t (rc_user_id c) db')"
      using upsert_referral_code_member [OF assms(1)] by (simp add: live_codes_def)
    then show ?thesis using sub True by auto
  next
    case False
    then show ?thesis using sub by (auto simp: live_codes_def)
  qed
qed

lemma set_singleton_Cons: "set xs = {c} \<Longrightarrow> \<exists>rs. xs = c # rs"
  by (cases xs) auto

lemma CreateCode_conflict:
  assumes "NewRefreshToken env = Inr code" and "fail_FindCodeByUserID env = None"
    and "live_codes (now env) uid (pg w) = r # rs" and "rc_code r = c"
  shows "CreateCode env w \<lparr>ri_UserId = uid, ri_TTL = ttl\<rparr> =
           (Fail (Errorf (''referral code '' @ c @ '' already exists'')),
            record_call (CallFindCodeByUserID uid) w)"
  using assms
  by (simp add: CreateCode_def CreateCode_found_def generateReferralCode_def
      Referral_FindCodeByUserID_def scan_referral_def Let_def)

lemma CreateCode_created:
  assumes "NewRefreshToken env = Inr code" and "fail_FindCodeByUserID env = None"
    and "live_codes (now env) uid (pg w) = []"
    and "fail_CreateReferralCode env = None" and "fail_RedisSet env = None"
    and "upsert_referral_code (pg w)
            \<lparr>rc_user_id = uid, rc_code = code, rc_expires_at = now env + ttl\<rparr> = Inr db'"
  shows "fst (CreateCode env w \<lparr>ri_UserId = uid, ri_TTL = ttl\<rparr>) = Ok code"
  using assms
  by (simp add: CreateCode_def CreateCode_found_def generateReferralCode_def
      Referral_FindCodeByUserID_def Referral_CreateReferralCode_def ReferralRedis_Create_def
      redisClient_Set_def Db_Exec_def record_call_def Let_def)

lemma upsert_referral_code_succeeds:
  "user_exists db (rc_user_id c) \<Longrightarrow> \<exists>db'. upsert_referral_code db c = Inr db'"
  by (simp add: upsert_referral_code_def)

subsection \<open>Refresh tokens in the store\<close>

lemma upsert_refresh_token_insert:
  assumes "upsert_refresh_token db s = Inr db'"
    and "\<not> list_ex (same_session s) (refresh_token_tbl db)"
  shows "db' = db\<lparr>refresh_token_tbl := refresh_token_tbl db @ [s]\<rparr>"
  using assms by (simp add: upsert_refresh_token_def split: if_splits)

lemma RefreshTokens_success:
  assumes "RefreshTokens env w refreshToken = (Ok tokens, w')"
  shows "\<exists>session. find (\<lambda>r. RefreshToken r = refreshToken \<and> now env < ExpiresAt r)
                       (refresh_token_tbl (pg w)) = Some session
           \<and> createSession env (record_call (CallFindByRefreshToken refreshToken) w)
                 (UserID session) = (Ok tokens, w')"
  using assms
  by (auto simp: RefreshTokens_def RefreshToken_FindByRefreshToken_def Let_def
      split: sum.splits option.splits prod.splits)

lemma find_append_left:
  "x \<in> set xs \<Longrightarrow> P x \<Longrightarrow> \<exists>y. find P (xs @ ys) = Some y \<and> y \<in> set xs \<and> P y"
  by (induction xs) auto

subsection \<open>Running the operations on the small state\<close>

lemmas test_defs = test_env_def test_world_def test_db_def

lemma test_env_simps:
  "now test_env = 10" "NewRefreshToken test_env = Inr ''new-token''"
  "fail_FindCodeByUserID test_env = None" "fail_CreateReferralCode test_env = None"
  "fail_RedisSet test_env = None" "fail_RedisGet test_env = None"
  by (simp_all add: test_env_def)

lemmas run_defs = createUser_def createUser_tx_def User_FindByEmail_def BeginTxx_def User_Create_def
  Referral_CreateReferral_def Tx_Commit_def Tx_Rollback_def Tx_Exec_def Db_Exec_def
  RefreshToken_Create_def record_call_def createUser_deferred_def createSession_def
  insert_user_def insert_referral_def upsert_refresh_token_def user_exists_def same_session_def
  uuid_Nil_def calls_since_def Let_def

lemmas code_defs = CreateCode_def CreateCode_found_def generateReferralCode_def
  Referral_FindCodeByUserID_def Referral_CreateReferralCode_def ReferralRedis_Create_def
  redisClient_Set_def Db_Exec_def record_call_def live_codes_def upsert_referral_code_def
  same_code_def user_exists_def redis_live_def Let_def

subsection \<open>The two writes of sign-up are one transaction\<close>

text \<open>
  Claim C1. Take a \<^verbatim>\<open>createUser\<close> call that has reached the transactional part with the
  open transaction that \<^verbatim>\<open>BeginTxx\<close> returned. Let \<open>write1\<close> be the insert of the
  user row and \<open>write2\<close> the insert of the referral edge (run only when a referral
  issuer was resolved). If either write fails, the call fails, \<^verbatim>\<open>Rollback\<close> is called,
  \<^verbatim>\<open>Commit\<close> is not, and the store is what it was: no user row and no edge row.
  \<^verbatim>\<open>Commit\<close> is called only if both writes succeeded; if it succeeds, the user and
  referral tables are those the transaction wrote; if it fails, the store is what it was.
  A panic of \<^verbatim>\<open>uuid.New()\<close> rolls back as well.
\<close>

theorem createUser_tx_atomic:
  assumes "\<not> tx_done tx" and "tx_db tx = pg w"
    and "createUser_tx env tx w input passwordHash = (res, w')"
  shows "case uuid_New env of
           None \<Rightarrow> pg w' = pg w \<and> calls_since w w' = [CallRollback]
         | Some newId \<Rightarrow>
            (let user = \<lparr>UserId = newId, Email = cu_Email input, PasswordHash = passwordHash\<rparr>;
                 edge = \<lparr>ru_UserID = newId, Referral = cu_ReferralId input\<rparr>;
                 write1 = Tx_Exec (fail_UserCreate env) (\<lambda>db. insert_user db user) tx;
                 write2 = (if cu_ReferralId input \<noteq> uuid_Nil
                           then Tx_Exec (fail_CreateReferral env) (\<lambda>db. insert_referral db edge)
                                  (snd write1)
                           else (None, snd write1))
             in (fst write1 \<noteq> None \<or> fst write2 \<noteq> None \<longrightarrow>
                   pg w' = pg w \<and> CallRollback \<in> set (calls_since w w')
                   \<and> CallCommit \<notin> set (calls_since w w') \<and> (\<exists>e. res = Fail e))
              \<and> (CallCommit \<in> set (calls_since w w') \<longrightarrow> fst write1 = None \<and> fst write2 = None)
              \<and> (fst write1 = None \<and> fst write2 = None \<and> fail_Commit env = None \<longrightarrow>
                   users (pg w') = users (tx_db (snd write2))
                   \<and> referral_tbl (pg w') = referral_tbl (tx_db (snd write2)))
              \<and> (fst write1 = None \<and> fst write2 = None \<and> fail_Commit env \<noteq> None \<longrightarrow>
                   pg w' = pg w \<and> (\<exists>e. res = Fail e)))"
proof (cases "uuid_New env")
  case None
  then show ?thesis
    using assms(3) by (auto simp: createUser_tx_panic calls_since_def)
next
  case (Some newId)
  define user where "user = \<lparr>UserId = newId, Email = cu_Email input, PasswordHash = passwordHash\<rparr>"
  define edge where "edge = \<lparr>ru_UserID = newId, Referral = cu_ReferralId input\<rparr>"
  define write1 where "write1 = Tx_Exec (fail_UserCreate env) (\<lambda>db. insert_user db user) tx"
  define write2 where "write2 = (if cu_ReferralId input \<noteq> uuid_Nil
      then Tx_Exec (fail_CreateReferral env) (\<lambda>db. insert_referral db edge) (snd write1)
      else (None, snd write1))"
  define w4 where "w4 = (if cu_ReferralId input \<noteq> uuid_Nil
      then record_call (CallCreateReferral edge) (record_call (CallUserCreate user) w)
      else record_call (CallUserCreate user) w)"
  define w5 where "w5 = record_call (LogInfo ''Create user'')
      ((record_call CallCommit w4)\<lparr>pg := tx_db (snd write2)\<rparr>)"
  note defs = user_def edge_def write1_def write2_def w4_def w5_def
  have goal: "(fst write1 \<noteq> None \<or> fst write2 \<noteq> None \<longrightarrow>
         pg w' = pg w \<and> CallRollback \<in> set (calls_since w w')
         \<and> CallCommit \<notin> set (calls_since w w') \<and> (\<exists>e. res = Fail e))
      \<and> (CallCommit \<in> set (calls_since w w') \<longrightarrow> fst write1 = None \<and> fst write2 = None)
      \<and> (fst write1 = None \<and> fst write2 = None \<and> fail_Commit env = None \<longrightarrow>
           users (pg w') = users (tx_db (snd write2))
           \<and> referral_tbl (pg w') = referral_tbl (tx_db (snd write2)))
      \<and> (fst write1 = None \<and> fst write2 = None \<and> fail_Commit env \<noteq> None \<longrightarrow>
           pg w' = pg w \<and> (\<exists>e. res = Fail e))"
  proof (cases "fst write1")
    case (Some e)
    then have "createUser_tx env tx w input passwordHash =
        (Fail e, record_call CallRollback (record_call (CallUserCreate user) w))"
      using createUser_tx_user_fails [OF \<open>uuid_New env = Some newId\<close>, of input passwordHash tx e w]
      by (simp add: defs)
    then show ?thesis
      using assms(3) Some by (auto simp: calls_since_def)
  next
    case w1: None
    show ?thesis
    proof (cases "fst write2")
      case (Some e)
      then have rid: "cu_ReferralId input \<noteq> uuid_Nil"
        by (auto simp: write2_def split: if_splits)
      then have "createUser_tx env tx w input passwordHash =
          (Fail e, record_call CallRollback
             (record_call (CallCreateReferral edge) (record_call (CallUserCreate user) w)))"
        using createUser_tx_referral_fails [OF \<open>uuid_New env = Some newId\<close>,
            of input passwordHash tx e w] w1 Some
        by (simp add: defs)
      then show ?thesis
        using assms(3) Some by (auto simp: calls_since_def)
    next
      case w2: None
      have run: "createUser_tx env tx w input passwordHash =
          (case fail_Commit env of
             Some m \<Rightarrow> (Fail (External m), record_call CallRollback (record_call CallCommit w4))
           | None \<Rightarrow>
              (fst (createSession env w5 newId),
               record_call CallCommit (snd (createSession env w5 newId))))"
        unfolding defs
        by (rule createUser_tx_writes_ok [OF \<open>uuid_New env = Some newId\<close>
              w1 [unfolded defs] w2 [unfolded defs] assms(1)])
      show ?thesis
      proof (cases "fail_Commit env")
        case None
        then have w': "w' = record_call CallCommit (snd (createSession env w5 newId))"
          using run assms(3) by simp
        have "CallCommit \<in> set (trace w5)" by (simp add: w5_def)
        have "users (pg w') = users (pg w5)" "referral_tbl (pg w') = referral_tbl (pg w5)"
          using createSession_frame [of env w5 newId] by (simp_all add: w')
        then show ?thesis
          using w1 w2 None by (simp add: w5_def)
      next
        case (Some m)
        then have "res = Fail (External m)"
          "w' = record_call CallRollback (record_call CallCommit w4)"
          using run assms(3) by simp_all
        then show ?thesis
          using w1 w2 Some by (simp add: w4_def)
      qed
    qed
  qed
  show ?thesis
    unfolding Some option.case Let_def by (rule goal [unfolded defs])
qed

theorem createUser_tx_atomic_witness:
  "createUser_tx (test_env\<lparr>fail_CreateReferral := Some ''connection reset''\<rparr>)
      \<lparr>tx_db = test_db, tx_done = False\<rparr> test_world
      \<lparr>cu_Email = ''bob@example.com'', cu_Password = ''pw'', cu_ReferralId = 1\<rparr> ''sha1:pw''
    = (Fail (External ''connection reset''),
       test_world\<lparr>trace :=
         [CallUserCreate \<lparr>UserId = 2, Email = ''bob@example.com'', PasswordHash = ''sha1:pw''\<rparr>,
          CallCreateReferral \<lparr>ru_UserID = 2, Referral = 1\<rparr>, CallRollback]\<rparr>)
   \<and> users (pg (snd (createUser_tx test_env \<lparr>tx_db = test_db, tx_done = False\<rparr> test_world
      \<lparr>cu_Email = ''bob@example.com'', cu_Password = ''pw'', cu_ReferralId = 1\<rparr> ''sha1:pw'')))
    = users test_db @ [\<lparr>UserId = 2, Email = ''bob@example.com'', PasswordHash = ''sha1:pw''\<rparr>]
   \<and> referral_tbl (pg (snd (createUser_tx test_env \<lparr>tx_db = test_db, tx_done = False\<rparr> test_world
      \<lparr>cu_Email = ''bob@example.com'', cu_Password = ''pw'', cu_ReferralId = 1\<rparr> ''sha1:pw'')))
    = [\<lparr>ru_UserID = 2, Referral = 1\<rparr>]"
  using createUser_tx_atomic [of "\<lparr>tx_db = test_db, tx_done = False\<rparr>" test_world
      "test_env\<lparr>fail_CreateReferral := Some ''connection reset''\<rparr>"
      "\<lparr>cu_Email = ''bob@example.com'', cu_Password = ''pw'', cu_ReferralId = 1\<rparr>" "''sha1:pw''"]
    createUser_tx_atomic [of "\<lparr>tx_db = test_db, tx_done = False\<rparr>" test_world
      test_env
      "\<lparr>cu_Email = ''bob@example.com'', cu_Password = ''pw'', cu_ReferralId = 1\<rparr>" "''sha1:pw''"]
  by (simp add: test_defs run_defs)

subsection \<open>What \<^verbatim>\<open>SignIn\<close> returns for a wrong password and for an unknown email\<close>

text \<open>
  Claim C2 says the two failures return the same error. They do not: on the small state,
  a wrong password for a registered email gives ``invalid credentials'' while an
  unregistered email gives ``user not found: sql: no rows in result set''.
\<close>

theorem SignIn_errors_differ_counterexample:
  "fst (SignIn test_env test_world \<lparr>si_Email = ''alice@example.com'', si_Password = ''wrong''\<rparr>)
     = Fail (Errorf ''invalid credentials'')
   \<and> fst (SignIn test_env test_world \<lparr>si_Email = ''nobody@example.com'', si_Password = ''wrong''\<rparr>)
     = Fail (Wrapf ''user not found'' ErrNoRows)
   \<and> fst (SignIn test_env test_world \<lparr>si_Email = ''alice@example.com'', si_Password = ''wrong''\<rparr>)
     \<noteq> fst (SignIn test_env test_world \<lparr>si_Email = ''nobody@example.com'', si_Password = ''wrong''\<rparr>)"
  by (simp add: SignIn_def User_FindByEmail_def test_env_def test_world_def test_db_def
      record_call_def Let_def)

text \<open>
  Claim C2, as amended. For an existing email with a wrong password \<^verbatim>\<open>SignIn\<close> fails
  with \<^verbatim>\<open>fmt.Errorf("invalid credentials")\<close>; for an email that no user has it fails
  with ``user not found'' wrapping \<^verbatim>\<open>sql.ErrNoRows\<close>. Both calls fail after the one
  lookup and change nothing in the store, but the two errors, and their messages, differ.
\<close>

theorem SignIn_wrong_password_vs_unknown_email:
  assumes "Hash env (si_Password known) = Inr h1"
    and "Hash env (si_Password unknown) = Inr h2"
    and "fail_FindByEmail env = None"
    and "find (\<lambda>u. Email u = si_Email known) (users (pg w)) = Some u"
    and "PasswordHash u \<noteq> h1"
    and "find (\<lambda>u. Email u = si_Email unknown) (users (pg w)) = None"
  shows "SignIn env w known =
           (Fail (Errorf ''invalid credentials''), record_call (CallFindByEmail (si_Email known)) w)
         \<and> SignIn env w unknown =
           (Fail (Wrapf ''user not found'' ErrNoRows),
            record_call (CallFindByEmail (si_Email unknown)) w)
         \<and> Error (Errorf ''invalid credentials'') \<noteq> Error (Wrapf ''user not found'' ErrNoRows)"
  using assms by (simp add: SignIn_def User_FindByEmail_def Let_def)

theorem SignIn_wrong_password_vs_unknown_email_witness:
  "SignIn test_env test_world \<lparr>si_Email = ''alice@example.com'', si_Password = ''wrong''\<rparr> =
     (Fail (Errorf ''invalid credentials''),
      test_world\<lparr>trace := [CallFindByEmail ''alice@example.com'']\<rparr>)
   \<and> SignIn test_env test_world \<lparr>si_Email = ''nobody@example.com'', si_Password = ''wrong''\<rparr> =
     (Fail (Wrapf ''user not found'' ErrNoRows),
      test_world\<lparr>trace := [CallFindByEmail ''nobody@example.com'']\<rparr>)"
  using SignIn_wrong_password_vs_unknown_email [of test_env
      "\<lparr>si_Email = ''alice@example.com'', si_Password = ''wrong''\<rparr>" "''sha1:wrong''"
      "\<lparr>si_Email = ''nobody@example.com'', si_Password = ''wrong''\<rparr>" "''sha1:wrong''"
      test_world "\<lparr>UserId = 1, Email = ''alice@example.com'', PasswordHash = ''sha1:secret''\<rparr>"]
  by (simp add: test_env_def test_world_def test_db_def record_call_def)

subsection \<open>Refreshing adds a row and touches no other\<close>

text \<open>
  Claim C3 says that every successful \<^verbatim>\<open>RefreshTokens\<close> call leaves the old row as it
  was and only inserts a row. The code does not check that the token it generates is
  new, and \<^verbatim>\<open>Create\<close> is an upsert on \<^verbatim>\<open>(user_id, refresh_token)\<close>: when the generator
  returns the presented token again, the call succeeds, the old row's expiry goes from
  100 to 60, no row is inserted, and at time 70 the token, found before the call, is no
  longer found.
\<close>

theorem RefreshTokens_same_token_counterexample:
  "RefreshTokens (test_env\<lparr>NewRefreshToken := Inr ''old-token''\<rparr>) test_world ''old-token'' =
     (Ok \<lparr>AccessToken = ''jwt'', tk_RefreshToken = ''old-token''\<rparr>,
      test_world\<lparr>pg := test_db\<lparr>refresh_token_tbl :=
          [\<lparr>UserID = 1, RefreshToken = ''old-token'', ExpiresAt = 60\<rparr>]\<rparr>,
        trace := [CallFindByRefreshToken ''old-token'',
          CallRefreshTokenCreate \<lparr>UserID = 1, RefreshToken = ''old-token'', ExpiresAt = 60\<rparr>]\<rparr>)
   \<and> refresh_token_tbl (pg test_world) =
       [\<lparr>UserID = 1, RefreshToken = ''old-token'', ExpiresAt = 100\<rparr>]
   \<and> fst (RefreshToken_FindByRefreshToken (test_env\<lparr>now := 70\<rparr>) test_world ''old-token'') =
       Inr \<lparr>UserID = 1, RefreshToken = ''old-token'', ExpiresAt = 100\<rparr>
   \<and> fst (RefreshToken_FindByRefreshToken (test_env\<lparr>now := 70\<rparr>)
         (snd (RefreshTokens (test_env\<lparr>NewRefreshToken := Inr ''old-token''\<rparr>) test_world
                ''old-token'')) ''old-token'') =
       Inl (Wrapf ''refresh token not found'' ErrNoRows)"
  by (simp add: test_defs RefreshTokens_def RefreshToken_FindByRefreshToken_def
      createSession_def RefreshToken_Create_def Db_Exec_def upsert_refresh_token_def
      same_session_def user_exists_def record_call_def Let_def)


text \<open>
  Claim C3, as amended. A successful \<^verbatim>\<open>RefreshTokens\<close> call that used the live row
  \<open>session\<close>, and whose newly generated refresh token is not already stored for that
  row's user, leaves the store as it was except for one appended row: the new session's
  token for that user. Every old row is unchanged, the cache is unchanged, and for every
  old row with the presented token a later lookup of that token before the row's own
  expiry still succeeds, on an old row.
\<close>

theorem RefreshTokens_keeps_old_rows:
  assumes "RefreshTokens env w refreshToken = (Ok tokens, w')"
    and "find (\<lambda>r. RefreshToken r = refreshToken \<and> now env < ExpiresAt r)
           (refresh_token_tbl (pg w)) = Some session"
    and "\<not> list_ex (\<lambda>r. UserID r = UserID session \<and> RefreshToken r = tk_RefreshToken tokens)
             (refresh_token_tbl (pg w))"
  shows "pg w' = (pg w)\<lparr>refresh_token_tbl := refresh_token_tbl (pg w) @
              [\<lparr>UserID = UserID session, RefreshToken = tk_RefreshToken tokens,
                ExpiresAt = now env + RefreshTokenTTL env\<rparr>]\<rparr>
         \<and> redis w' = redis w
         \<and> (\<forall>row env2. row \<in> set (refresh_token_tbl (pg w)) \<and> RefreshToken row = refreshToken
                \<and> now env2 < ExpiresAt row \<and> fail_FindByRefreshToken env2 = None
              \<longrightarrow> (\<exists>r. fst (RefreshToken_FindByRefreshToken env2 w' refreshToken) = Inr r
                       \<and> r \<in> set (refresh_token_tbl (pg w))))"
proof -
  obtain session' where session:
    "find (\<lambda>r. RefreshToken r = refreshToken \<and> now env < ExpiresAt r)
       (refresh_token_tbl (pg w)) = Some session'"
    "createSession env (record_call (CallFindByRefreshToken refreshToken) w)
       (UserID session') = (Ok tokens, w')"
    using RefreshTokens_success [OF assms(1)] by auto
  have same: "session' = session" using session(1) assms(2) by simp
  let ?new = "\<lparr>UserID = UserID session, RefreshToken = tk_RefreshToken tokens,
                ExpiresAt = now env + RefreshTokenTTL env\<rparr>"
  have up: "upsert_refresh_token (pg w) ?new = Inr (pg w')" and redis: "redis w' = redis w"
    using createSession_success(1,2) [OF session(2)] by (simp_all add: same)
  have "\<not> list_ex (same_session ?new) (refresh_token_tbl (pg w))"
    using assms(3) by (simp add: same_session_def list_ex_iff)
  then have pg: "pg w' = (pg w)\<lparr>refresh_token_tbl := refresh_token_tbl (pg w) @ [?new]\<rparr>"
    by (rule upsert_refresh_token_insert [OF up])
  have usable: "\<exists>r. fst (RefreshToken_FindByRefreshToken env2 w' refreshToken) = Inr r
                       \<and> r \<in> set (refresh_token_tbl (pg w))"
    if row: "row \<in> set (refresh_token_tbl (pg w))" "RefreshToken row = refreshToken"
      "now env2 < ExpiresAt row" "fail_FindByRefreshToken env2 = None" for row env2
  proof -
    obtain y where "find (\<lambda>r. RefreshToken r = refreshToken \<and> now env2 < ExpiresAt r)
        (refresh_token_tbl (pg w) @ [?new]) = Some y" "y \<in> set (refresh_token_tbl (pg w))"
      using find_append_left [of row "refresh_token_tbl (pg w)"
          "\<lambda>r. RefreshToken r = refreshToken \<and> now env2 < ExpiresAt r" "[?new]"] row(1-3)
      by auto
    then show ?thesis
      using row(4) by (simp add: RefreshToken_FindByRefreshToken_def pg Let_def)
  qed
  show ?thesis
    using pg redis usable by blast
qed


theorem RefreshTokens_keeps_old_rows_witness:
  "RefreshTokens test_env test_world ''old-token'' =
     (Ok \<lparr>AccessToken = ''jwt'', tk_RefreshToken = ''new-token''\<rparr>,
      test_world\<lparr>pg := test_db\<lparr>refresh_token_tbl :=
          [\<lparr>UserID = 1, RefreshToken = ''old-token'', ExpiresAt = 100\<rparr>,
           \<lparr>UserID = 1, RefreshToken = ''new-token'', ExpiresAt = 60\<rparr>]\<rparr>,
        trace := [CallFindByRefreshToken ''old-token'',
          CallRefreshTokenCreate \<lparr>UserID = 1, RefreshToken = ''new-token'', ExpiresAt = 60\<rparr>]\<rparr>)
   \<and> fst (RefreshToken_FindByRefreshToken (test_env\<lparr>now := 70\<rparr>)
         (snd (RefreshTokens test_env test_world ''old-token'')) ''old-token'') =
       Inr \<lparr>UserID = 1, RefreshToken = ''old-token'', ExpiresAt = 100\<rparr>"
  using RefreshTokens_keeps_old_rows [of test_env test_world "''old-token''"
      "\<lparr>AccessToken = ''jwt'', tk_RefreshToken = ''new-token''\<rparr>"
      "test_world\<lparr>pg := test_db\<lparr>refresh_token_tbl :=
          [\<lparr>UserID = 1, RefreshToken = ''old-token'', ExpiresAt = 100\<rparr>,
           \<lparr>UserID = 1, RefreshToken = ''new-token'', ExpiresAt = 60\<rparr>]\<rparr>,
        trace := [CallFindByRefreshToken ''old-token'',
          CallRefreshTokenCreate \<lparr>UserID = 1, RefreshToken = ''new-token'', ExpiresAt = 60\<rparr>]\<rparr>"
      "\<lparr>UserID = 1, RefreshToken = ''old-token'', ExpiresAt = 100\<rparr>"]
  by (simp add: test_defs RefreshTokens_def RefreshToken_FindByRefreshToken_def
      createSession_def RefreshToken_Create_def Db_Exec_def upsert_refresh_token_def
      same_session_def user_exists_def record_call_def Let_def)

subsection \<open>A second referral code, before and after the first expires\<close>

text \<open>
  Claim C4. After a successful \<^verbatim>\<open>CreateCode\<close> for an existing user at time \<open>now env1\<close>
  with TTL \<open>ttl1\<close>, a second call for the same user at a later time, in which the
  generator, the store and the cache do not fail: fails with ``referral code <first
  code> already exists'' while the first code has not expired, and succeeds with the
  newly generated code once the first code's TTL has elapsed.
\<close>

theorem CreateCode_twice:
  assumes "CreateCode env1 w \<lparr>ri_UserId = uid, ri_TTL = ttl1\<rparr> = (Ok code1, w1)"
    and "user_exists (pg w) uid"
    and "now env1 \<le> now env2"
    and "NewRefreshToken env2 = Inr code2"
    and "fail_FindCodeByUserID env2 = None"
    and "fail_CreateReferralCode env2 = None"
    and "fail_RedisSet env2 = None"
  shows "(now env2 < now env1 + ttl1 \<longrightarrow>
            CreateCode env2 w1 \<lparr>ri_UserId = uid, ri_TTL = ttl2\<rparr> =
              (Fail (Errorf (''referral code '' @ code1 @ '' already exists'')),
               record_call (CallFindCodeByUserID uid) w1))
       \<and> (now env1 + ttl1 \<le> now env2 \<longrightarrow>
            fst (CreateCode env2 w1 \<lparr>ri_UserId = uid, ri_TTL = ttl2\<rparr>) = Ok code2)"
proof -
  define c where "c = \<lparr>rc_user_id = uid, rc_code = code1, rc_expires_at = now env1 + ttl1\<rparr>"
  have c: "rc_user_id c = uid" "rc_code c = code1" "rc_expires_at c = now env1 + ttl1"
    by (simp_all add: c_def)
  have first: "live_codes (now env1) (rc_user_id c) (pg w) = []"
    "upsert_referral_code (pg w) c = Inr (pg w1)"
    using CreateCode_success_store [OF assms(1)] by (simp_all add: c_def)
  have live: "set (live_codes (now env2) uid (pg w1)) =
      (if now env2 < now env1 + ttl1 then {c} else {})"
    using live_codes_after_upsert [OF first(2,1) assms(3)] by (simp only: c)
  have conflict: "CreateCode env2 w1 \<lparr>ri_UserId = uid, ri_TTL = ttl2\<rparr> =
        (Fail (Errorf (''referral code '' @ code1 @ '' already exists'')),
         record_call (CallFindCodeByUserID uid) w1)"
    if "now env2 < now env1 + ttl1"
  proof -
    have "set (live_codes (now env2) uid (pg w1)) = {c}"
      using live that by (simp only: if_True)
    then have "\<exists>rs. live_codes (now env2) uid (pg w1) = c # rs"
      by (rule set_singleton_Cons)
    then obtain rs where "live_codes (now env2) uid (pg w1) = c # rs" ..
    then show ?thesis
      by (rule CreateCode_conflict [OF assms(4,5) _ c(2)])
  qed
  have again: "fst (CreateCode env2 w1 \<lparr>ri_UserId = uid, ri_TTL = ttl2\<rparr>) = Ok code2"
    if "now env1 + ttl1 \<le> now env2"
  proof -
    have "\<not> now env2 < now env1 + ttl1" using that by simp
    then have "set (live_codes (now env2) uid (pg w1)) = {}"
      using live by (simp only: if_False)
    then have none: "live_codes (now env2) uid (pg w1) = []" by simp
    have "users (pg w1) = users (pg w)"
      by (rule upsert_referral_code_rows(2) [OF first(2)])
    then have "user_exists (pg w1) uid"
      using assms(2) by (simp add: user_exists_def)
    then obtain db' where "upsert_referral_code (pg w1)
        \<lparr>rc_user_id = uid, rc_code = code2, rc_expires_at = now env2 + ttl2\<rparr> = Inr db'"
      using upsert_referral_code_succeeds
        [of "pg w1" "\<lparr>rc_user_id = uid, rc_code = code2, rc_expires_at = now env2 + ttl2\<rparr>"]
      by auto
    then show ?thesis
      by (rule CreateCode_created [OF assms(4,5) none assms(6,7)])
  qed
  show ?thesis
  proof (intro conjI impI)
    assume "now env2 < now env1 + ttl1"
    then show "CreateCode env2 w1 \<lparr>ri_UserId = uid, ri_TTL = ttl2\<rparr> =
        (Fail (Errorf (''referral code '' @ code1 @ '' already exists'')),
         record_call (CallFindCodeByUserID uid) w1)"
      by (rule conflict)
  next
    assume "now env1 + ttl1 \<le> now env2"
    then show "fst (CreateCode env2 w1 \<lparr>ri_UserId = uid, ri_TTL = ttl2\<rparr>) = Ok code2"
      by (rule again)
  qed
qed

theorem CreateCode_twice_witness:
  "fst (CreateCode test_env test_world \<lparr>ri_UserId = 1, ri_TTL = 30\<rparr>) = Ok ''new-token''
   \<and> fst (CreateCode (test_env\<lparr>now := 20, NewRefreshToken := Inr ''code-2''\<rparr>)
          (snd (CreateCode test_env test_world \<lparr>ri_UserId = 1, ri_TTL = 30\<rparr>))
          \<lparr>ri_UserId = 1, ri_TTL = 30\<rparr>)
       = Fail (Errorf ''referral code new-token already exists'')
   \<and> fst (CreateCode (test_env\<lparr>now := 40, NewRefreshToken := Inr ''code-2''\<rparr>)
          (snd (CreateCode test_env test_world \<lparr>ri_UserId = 1, ri_TTL = 30\<rparr>))
          \<lparr>ri_UserId = 1, ri_TTL = 30\<rparr>)
       = Ok ''code-2''"
proof -
  obtain w1 where first: "CreateCode test_env test_world \<lparr>ri_UserId = 1, ri_TTL = 30\<rparr> =
      (Ok ''new-token'', w1)"
    by (simp add: test_defs code_defs)
  have user: "user_exists (pg test_world) 1"
    by (simp add: test_defs user_exists_def)
  show ?thesis
    using CreateCode_twice [OF first user, of "test_env\<lparr>now := 20, NewRefreshToken := Inr ''code-2''\<rparr>"
        "''code-2''" 30]
      CreateCode_twice [OF first user, of "test_env\<lparr>now := 40, NewRefreshToken := Inr ''code-2''\<rparr>"
        "''code-2''" 30]
    by (simp add: first test_env_simps)
qed

subsection \<open>A created code is found in the cache\<close>

text \<open>
  Claim C5. After a successful \<^verbatim>\<open>CreateCode\<close> for user \<open>uid\<close> with a positive TTL, a
  cache lookup of the returned code at once, at the instant of the write, returns exactly
  \<open>uid\<close>, the cache being reachable.
\<close>

theorem CreateCode_cache_round_trip:
  assumes "CreateCode env w \<lparr>ri_UserId = uid, ri_TTL = ttl\<rparr> = (Ok code, w')"
    and "0 < ttl"
    and "fail_RedisGet env' = None"
    and "now env' = now env"
  shows "fst (ReferralRedis_FindByReferralCode env' w' code) = Inr uid"
proof -
  have "redis w' code = Some (uuid_String uid, Some (now env + sent_lifetime ttl))"
    using CreateCode_success [OF assms(1)] assms(2) by simp
  moreover have "now env' < now env + sent_lifetime ttl"
    using sent_lifetime_positive [OF assms(2)] assms(4) by simp
  ultimately show ?thesis
    using assms(3)
    by (simp add: ReferralRedis_FindByReferralCode_def redisClient_Get_def redis_live_def
        uuid_Parse_String Let_def)
qed

theorem CreateCode_cache_round_trip_witness:
  "fst (CreateCode test_env test_world \<lparr>ri_UserId = 1, ri_TTL = 30\<rparr>) = Ok ''new-token''
   \<and> fst (ReferralRedis_FindByReferralCode test_env
          (snd (CreateCode test_env test_world \<lparr>ri_UserId = 1, ri_TTL = 30\<rparr>)) ''new-token'')
       = Inr 1"
proof -
  obtain w1 where first: "CreateCode test_env test_world \<lparr>ri_UserId = 1, ri_TTL = 30\<rparr> =
      (Ok ''new-token'', w1)"
    by (simp add: test_defs code_defs)
  show ?thesis
    using CreateCode_cache_round_trip [OF first, of test_env]
    by (simp add: first test_env_simps)
qed

subsection \<open>A cache failure after the store write\<close>

text \<open>
  Claim C6. In \<^verbatim>\<open>CreateCode\<close>, when the code is written to the store and the cache
  write then fails, the call fails with ``error setting referral code in Redis'', the row
  is in the store, and the failed cache write is the last call made: nothing undoes the
  store write.
\<close>

theorem CreateCode_cache_failure_keeps_row:
  assumes "generateReferralCode env = Inr code"
    and "fail_FindCodeByUserID env = None"
    and "live_codes (now env) (ri_UserId input) (pg w) = []"
    and "fail_CreateReferralCode env = None"
    and "row = \<lparr>rc_user_id = ri_UserId input, rc_code = code,
                 rc_expires_at = now env + ri_TTL input\<rparr>"
    and "upsert_referral_code (pg w) row = Inr db'"
    and "fail_RedisSet env = Some m"
  shows "CreateCode env w input =
           (Fail (Wrapf ''error setting referral code in Redis'' (External m)),
            w\<lparr>pg := db',
              trace := trace w @
                [CallFindCodeByUserID (ri_UserId input),
                 CallCreateReferralCode
                   \<lparr>ReferralCode = code, ref_UserId = ri_UserId input, TTL = ri_TTL input\<rparr>,
                 CallRedisSet code (uuid_String (ri_UserId input)) (ri_TTL input)]\<rparr>)
         \<and> list_ex (\<lambda>r. r = row) (referral_code_tbl db')"
proof -
  have "list_ex (\<lambda>r. r = row) (referral_code_tbl db')"
    using upsert_referral_code_member [OF assms(6)] by (simp add: list_ex_iff)
  moreover have "CreateCode env w input =
           (Fail (Wrapf ''error setting referral code in Redis'' (External m)),
            w\<lparr>pg := db',
              trace := trace w @
                [CallFindCodeByUserID (ri_UserId input),
                 CallCreateReferralCode
                   \<lparr>ReferralCode = code, ref_UserId = ri_UserId input, TTL = ri_TTL input\<rparr>,
                 CallRedisSet code (uuid_String (ri_UserId input)) (ri_TTL input)]\<rparr>)"
    using assms
    by (simp add: CreateCode_def CreateCode_found_def
      Referral_FindCodeByUserID_def Referral_CreateReferralCode_def ReferralRedis_Create_def
      redisClient_Set_def Db_Exec_def record_call_def Let_def)
  ultimately show ?thesis by simp
qed

theorem CreateCode_cache_failure_keeps_row_witness:
  "CreateCode (test_env\<lparr>fail_RedisSet := Some ''i/o timeout''\<rparr>) test_world
      \<lparr>ri_UserId = 1, ri_TTL = 30\<rparr> =
     (Fail (Wrapf ''error setting referral code in Redis'' (External ''i/o timeout'')),
      test_world\<lparr>pg := test_db\<lparr>referral_code_tbl :=
          [\<lparr>rc_user_id = 1, rc_code = ''new-token'', rc_expires_at = 40\<rparr>]\<rparr>,
        trace := [CallFindCodeByUserID 1,
          CallCreateReferralCode \<lparr>ReferralCode = ''new-token'', ref_UserId = 1, TTL = 30\<rparr>,
          CallRedisSet ''new-token'' (uuid_String 1) 30]\<rparr>)"
  using CreateCode_cache_failure_keeps_row [of "test_env\<lparr>fail_RedisSet := Some ''i/o timeout''\<rparr>"
      "''new-token''" "\<lparr>ri_UserId = 1, ri_TTL = 30\<rparr>" test_world
      "\<lparr>rc_user_id = 1, rc_code = ''new-token'', rc_expires_at = 40\<rparr>"
      "test_db\<lparr>referral_code_tbl :=
          [\<lparr>rc_user_id = 1, rc_code = ''new-token'', rc_expires_at = 40\<rparr>]\<rparr>" "''i/o timeout''"]
  by (simp add: test_defs code_defs)

subsection \<open>Sign-up with a referral code the cache does not hold\<close>

text \<open>
  Claim C7. When \<^verbatim>\<open>SignUp\<close> is given a non-empty referral code that the cache does not
  hold (absent or expired), it fails with ``failed to find referral code: referral code not
  found: <code>''. The only call made is the one \<^verbatim>\<open>Get\<close> on the cache: the store is not
  asked for the code and no row is written.
\<close>

theorem SignUp_unknown_referral_code:
  assumes "su_ReferralCode input \<noteq> []"
    and "fail_RedisGet env = None"
    and "\<not> redis_live (now env) (redis w (su_ReferralCode input))"
  shows "SignUp env w input =
           (Fail (Wrapf ''failed to find referral code''
                    (Errorf (''referral code not found: '' @ su_ReferralCode input))),
            record_call (CallRedisGet (su_ReferralCode input)) w)
         \<and> pg (snd (SignUp env w input)) = pg w
         \<and> redis (snd (SignUp env w input)) = redis w"
  using assms
  by (simp add: SignUp_def ReferralRedis_FindByReferralCode_def redisClient_Get_def
      record_call_def Let_def)

theorem SignUp_unknown_referral_code_witness:
  "SignUp test_env test_world
      \<lparr>su_Email = ''bob@example.com'', su_Password = ''pw'', su_ReferralCode = ''nocode''\<rparr> =
     (Fail (Wrapf ''failed to find referral code'' (Errorf ''referral code not found: nocode'')),
      test_world\<lparr>trace := [CallRedisGet ''nocode'']\<rparr>)
   \<and> users (pg test_world) = users test_db"
  using SignUp_unknown_referral_code [of
      "\<lparr>su_Email = ''bob@example.com'', su_Password = ''pw'', su_ReferralCode = ''nocode''\<rparr>"
      test_env test_world]
  by (simp add: test_env_def test_world_def redis_live_def record_call_def)

subsection \<open>Sign-up without a referral code\<close>

text \<open>
  Claim C8. When the referral code of a \<^verbatim>\<open>SignUp\<close> call is empty, the call is
  \<^verbatim>\<open>createUser\<close> with the nil id as referral issuer: no call is made to the cache, no
  \<^verbatim>\<open>CreateReferral\<close> is run, and the referral table and the cache are what they were.
\<close>

theorem SignUp_without_referral_code:
  assumes "su_ReferralCode input = []"
  shows "SignUp env w input =
           createUser env w \<lparr>cu_Email = su_Email input, cu_Password = su_Password input,
                             cu_ReferralId = uuid_Nil\<rparr>
         \<and> \<not> list_ex is_cache_call (calls_since w (snd (SignUp env w input)))
         \<and> \<not> list_ex is_CreateReferral (calls_since w (snd (SignUp env w input)))
         \<and> referral_tbl (pg (snd (SignUp env w input))) = referral_tbl (pg w)
         \<and> redis (snd (SignUp env w input)) = redis w"
proof -
  let ?input = "\<lparr>cu_Email = su_Email input, cu_Password = su_Password input,
                  cu_ReferralId = uuid_Nil\<rparr>"
  have eq: "SignUp env w input = createUser env w ?input"
    using assms by (simp add: SignUp_def)
  obtain evs where evs: "trace (snd (createUser env w ?input)) = trace w @ evs"
    "\<not> list_ex is_cache_call evs" "\<not> list_ex is_CreateReferral evs"
    using createUser_calls [of env w ?input] by auto
  have calls: "calls_since w (snd (createUser env w ?input)) = evs"
    using evs(1) by (rule calls_since_append)
  show ?thesis
    using evs(2,3) createUser_no_edge [of ?input env w] createUser_redis [of env w ?input]
    by (simp add: eq calls)
qed

theorem SignUp_without_referral_code_witness:
  "SignUp test_env test_world
      \<lparr>su_Email = ''bob@example.com'', su_Password = ''pw'', su_ReferralCode = []\<rparr> =
     (Ok \<lparr>AccessToken = ''jwt'', tk_RefreshToken = ''new-token''\<rparr>,
      test_world\<lparr>pg := test_db\<lparr>
          users := users test_db @
            [\<lparr>UserId = 2, Email = ''bob@example.com'', PasswordHash = ''sha1:pw''\<rparr>],
          refresh_token_tbl := refresh_token_tbl test_db @
            [\<lparr>UserID = 2, RefreshToken = ''new-token'', ExpiresAt = 60\<rparr>]\<rparr>,
        trace :=
          [CallFindByEmail ''bob@example.com'', CallBeginTxx,
           CallUserCreate \<lparr>UserId = 2, Email = ''bob@example.com'', PasswordHash = ''sha1:pw''\<rparr>,
           CallCommit, LogInfo ''Create user'',
           CallRefreshTokenCreate \<lparr>UserID = 2, RefreshToken = ''new-token'', ExpiresAt = 60\<rparr>,
           CallCommit]\<rparr>)"
  using SignUp_without_referral_code [of
      "\<lparr>su_Email = ''bob@example.com'', su_Password = ''pw'', su_ReferralCode = []\<rparr>"
      test_env test_world]
  by (simp add: test_defs run_defs)

subsection \<open>The email pre-check\<close>

text \<open>
  Claim C9. \<^verbatim>\<open>createUser\<close> (and \<^verbatim>\<open>SignUp\<close>, once the referral code is resolved)
  returns ``email already in use'' exactly when the \<^verbatim>\<open>FindByEmail\<close> lookup succeeds. A
  failure of the store makes the lookup return an error like a missing row does, and
  after any error of the lookup the call goes on: once the password is hashed and
  \<^verbatim>\<open>BeginTxx\<close> has succeeded it is the transactional part that runs.
\<close>

theorem createUser_email_in_use_iff:
  "(fst (createUser env w input) = Fail (Errorf ''email already in use'')
      \<longleftrightarrow> (\<exists>u. fst (User_FindByEmail env w (cu_Email input)) = Inr u))
   \<and> (fst (SignUp env w su) = Fail (Errorf ''email already in use'')
      \<longleftrightarrow> (su_ReferralCode su = []
             \<or> (\<exists>rid. fst (ReferralRedis_FindByReferralCode env w (su_ReferralCode su)) = Inr rid))
          \<and> (\<exists>u. fst (User_FindByEmail env w (su_Email su)) = Inr u))
   \<and> (\<forall>m. fail_FindByEmail env = Some m \<longrightarrow>
          fst (User_FindByEmail env w (cu_Email input)) = Inl (Wrapf ''user not found'' (External m)))
   \<and> (\<forall>e h. fst (User_FindByEmail env w (cu_Email input)) = Inl e
          \<and> Hash env (cu_Password input) = Inr h \<and> fail_BeginTxx env = None
        \<longrightarrow> createUser env w input =
              createUser_tx env \<lparr>tx_db = pg w, tx_done = False\<rparr>
                (record_call CallBeginTxx (record_call (CallFindByEmail (cu_Email input)) w))
                input h)"
proof -
  have a: "fst (createUser env w input) = Fail (Errorf ''email already in use'')
      \<longleftrightarrow> (\<exists>u. fst (User_FindByEmail env w (cu_Email input)) = Inr u)" for w input
    by (simp add: createUser_error_origin)
  have b: "fst (SignUp env w su) = Fail (Errorf ''email already in use'')
      \<longleftrightarrow> (su_ReferralCode su = []
             \<or> (\<exists>rid. fst (ReferralRedis_FindByReferralCode env w (su_ReferralCode su)) = Inr rid))
          \<and> (\<exists>u. fst (User_FindByEmail env w (su_Email su)) = Inr u)"
  proof (cases "su_ReferralCode su = []")
    case True
    then show ?thesis by (simp add: SignUp_def a)
  next
    case False
    obtain r w1 where r: "ReferralRedis_FindByReferralCode env w (su_ReferralCode su) = (r, w1)"
      by (cases "ReferralRedis_FindByReferralCode env w (su_ReferralCode su)")
    then have "pg w1 = pg w"
      using ReferralRedis_FindByReferralCode_frame(1) [of env w "su_ReferralCode su"] by simp
    then show ?thesis
      using False r User_FindByEmail_pg [of w1 w env "su_Email su"]
      by (cases r) (simp_all add: SignUp_def a)
  qed
  have c: "fail_FindByEmail env = Some m \<longrightarrow>
      fst (User_FindByEmail env w (cu_Email input)) = Inl (Wrapf ''user not found'' (External m))"
    for m
    by (simp add: User_FindByEmail_def Let_def)
  show ?thesis
    using a [of w input] b c createUser_proceeds [of env w input] by blast
qed

theorem createUser_email_in_use_iff_witness:
  "fst (createUser test_env test_world
      \<lparr>cu_Email = ''alice@example.com'', cu_Password = ''pw'', cu_ReferralId = 0\<rparr>)
     = Fail (Errorf ''email already in use'')
   \<and> fst (User_FindByEmail (test_env\<lparr>fail_FindByEmail := Some ''connection reset''\<rparr>) test_world
      ''alice@example.com'') = Inl (Wrapf ''user not found'' (External ''connection reset''))
   \<and> createUser (test_env\<lparr>fail_FindByEmail := Some ''connection reset''\<rparr>) test_world
      \<lparr>cu_Email = ''alice@example.com'', cu_Password = ''pw'', cu_ReferralId = 0\<rparr>
     = (Fail (Wrapf ''error inserting or updating refresh token'' pq_foreign_key_violation),
        test_world\<lparr>trace :=
          [CallFindByEmail ''alice@example.com'', CallBeginTxx,
           CallUserCreate \<lparr>UserId = 2, Email = ''alice@example.com'', PasswordHash = ''sha1:pw''\<rparr>,
           CallCommit, LogInfo ''Create user'',
           CallRefreshTokenCreate \<lparr>UserID = 2, RefreshToken = ''new-token'', ExpiresAt = 60\<rparr>,
           CallCommit]\<rparr>)"
  using createUser_email_in_use_iff [of test_env test_world
      "\<lparr>cu_Email = ''alice@example.com'', cu_Password = ''pw'', cu_ReferralId = 0\<rparr>"]
    createUser_email_in_use_iff [of "test_env\<lparr>fail_FindByEmail := Some ''connection reset''\<rparr>"
      test_world "\<lparr>cu_Email = ''alice@example.com'', cu_Password = ''pw'', cu_ReferralId = 0\<rparr>"]
  by (simp add: test_defs run_defs)

subsection \<open>The conflict branch of \<^verbatim>\<open>CreateCode\<close>\<close>

text \<open>
  Claim C10. When \<^verbatim>\<open>FindCodeByUserID\<close> returns a non-nil slice, \<^verbatim>\<open>CreateCode\<close> reads
  \<^verbatim>\<open>res[0]\<close> whatever error came with it: with a first element the call fails with
  ``referral code ... already exists'', and with a non-nil empty slice the index is out of
  range and the call panics. The Postgres implementation never returns a non-nil empty
  slice.
\<close>

theorem CreateCode_reads_first_before_error:
  "CreateCode_found env w input referralCode (Some (r # rs)) err =
     (Fail (Errorf (''referral code '' @ ReferralCode r @ '' already exists'')), w)
   \<and> CreateCode_found env w input referralCode (Some []) err =
     (Panic ''index out of range [0] with length 0'', w)
   \<and> fst (fst (Referral_FindCodeByUserID env w uid)) \<noteq> Some []"
  by (simp add: CreateCode_found_def Referral_FindCodeByUserID_def Let_def
      split: option.splits list.splits)

theorem CreateCode_reads_first_before_error_witness:
  "CreateCode_found test_env test_world \<lparr>ri_UserId = 1, ri_TTL = 60\<rparr> ''c2''
      (Some [\<lparr>ReferralCode = ''c1'', ref_UserId = 1, TTL = 0\<rparr>]) (Some (External ''scan'')) =
     (Fail (Errorf ''referral code c1 already exists''), test_world)
   \<and> CreateCode_found test_env test_world \<lparr>ri_UserId = 1, ri_TTL = 60\<rparr> ''c2''
      (Some []) None = (Panic ''index out of range [0] with length 0'', test_world)"
  using CreateCode_reads_first_before_error [of test_env test_world "\<lparr>ri_UserId = 1, ri_TTL = 60\<rparr>" "''c2''"
      "\<lparr>ReferralCode = ''c1'', ref_UserId = 1, TTL = 0\<rparr>" "[]" "Some (External ''scan'')" 1]
    CreateCode_reads_first_before_error [of test_env test_world "\<lparr>ri_UserId = 1, ri_TTL = 60\<rparr>" "''c2''"
      "\<lparr>ReferralCode = ''c1'', ref_UserId = 1, TTL = 0\<rparr>" "[]" "None" 1]
  by simp

end
